theory Spec2Isabelle
  imports Complex_Main
begin

text \<open>
  A shallow embedding of the particle-state update engine of \<open>src/lib/physics.js\<close>
  (classes \<open>Particle\<close> and \<open>Universe\<close>) with the configuration of
  \<open>src/lib/config.js\<close>: the force calculator, photon emission and absorption, the
  integrator, the boundary handler and \<open>step\<close>. Methods that mutate a particle or the
  universe return the new value.
\<close>

section \<open>Numbers\<close>

text \<open>
  JavaScript numbers are modelled as real numbers: arithmetic on finite values is
  taken as exact. JavaScript never raises on arithmetic; a division by zero or the
  square root of a negative number yields \<open>NaN\<close> or an infinity, which is then stored
  or returned like any other number. HOL's \<open>x / 0 = 0\<close> and \<open>sqrt\<close> of a negative
  would hide this, so every division whose divisor can be zero and every square root
  whose argument can be negative is written out: the model returns \<open>Inl NonFinite\<close>
  at the point where the code stores or returns a value that is not a finite number,
  and does not follow the code beyond that point. Where the source guards a division
  (or the divisor is a positive constant, or the root is taken of a sum of squares)
  the plain HOL operation is used.
\<close>

datatype error = NonFinite

definition jsdiv :: "real \<Rightarrow> real \<Rightarrow> error + real" where
  "jsdiv a b = (if b = 0 then Inl NonFinite else Inr (a / b))"

definition jssqrt :: "real \<Rightarrow> error + real" where
  "jssqrt a = (if a < 0 then Inl NonFinite else Inr (sqrt a))"

definition jsacos :: "real \<Rightarrow> error + real" where
  "jsacos a = (if - 1 \<le> a \<and> a \<le> 1 then Inr (arccos a) else Inl NonFinite)"

section \<open>Data model\<close>

text \<open>
  \<open>class Particle\<close>. The fields \<open>x, y, z, vx, vy, vz\<close> of the source are
  \<open>pos_x, pos_y, pos_z, vel_x, vel_y, vel_z\<close> here; the other fields keep their names.
\<close>

record Particle =
  pos_x :: real
  pos_y :: real
  pos_z :: real
  vel_x :: real
  vel_y :: real
  vel_z :: real
  charge :: real
  mass :: real
  fixed :: bool
  isPhoton :: bool
  energy :: real
  age :: int
  hasEmittedPhoton :: bool
  forceElectroX :: real
  forceElectroY :: real
  forceElectroZ :: real
  accelerationX :: real
  accelerationY :: real
  accelerationZ :: real

text \<open>
  The constructor
  \<open>Particle(x, y, vx, vy, charge, mass, fixed, z, vz, isPhoton, energy)\<close>,
  with the argument order of the source.
\<close>

definition new_Particle ::
  "real \<Rightarrow> real \<Rightarrow> real \<Rightarrow> real \<Rightarrow> real \<Rightarrow> real \<Rightarrow> bool \<Rightarrow> real \<Rightarrow> real \<Rightarrow> bool \<Rightarrow> real \<Rightarrow> Particle" where
  "new_Particle x y vx vy q m fx z vz ph en =
     \<lparr> pos_x = x, pos_y = y, pos_z = z, vel_x = vx, vel_y = vy, vel_z = vz,
       charge = q, mass = m, fixed = fx, isPhoton = ph, energy = en, age = 0,
       hasEmittedPhoton = False,
       forceElectroX = 0, forceElectroY = 0, forceElectroZ = 0,
       accelerationX = 0, accelerationY = 0, accelerationZ = 0 \<rparr>"

text \<open>
  \<open>class Universe\<close>. The field \<open>size\<close> of the source is \<open>usize\<close> here. The
  array \<open>particles\<close> is a list of particle values: every entry is taken to be an
  object of its own (no particle object is added twice).
\<close>

record Universe =
  usize :: real
  electrostaticCoefficient :: real
  electronMass :: real
  photonEmissionSpeedThreshold :: real
  photonAbsorptionDistance :: real
  photonMinAgeForAbsorption :: int
  staticProtons :: bool
  strongForceEnabled :: bool
  strongForceCoefficient :: real
  gravityEnabled :: bool
  gravityCoefficient :: real
  groundGravityEnabled :: bool
  groundGravityCoefficient :: real
  mode3D :: bool
  particles :: "Particle list"
  dt :: real

text \<open>The constructor \<open>Universe(size, electrostaticCoefficient)\<close>.\<close>

definition new_Universe :: "real \<Rightarrow> real \<Rightarrow> Universe" where
  "new_Universe sz k =
     \<lparr> usize = sz, electrostaticCoefficient = k, electronMass = 1,
       photonEmissionSpeedThreshold = 1 / 1000,
       photonAbsorptionDistance = 3 * (1 / 1000),
       photonMinAgeForAbsorption = 100,
       staticProtons = True,
       strongForceEnabled = False, strongForceCoefficient = 10,
       gravityEnabled = False, gravityCoefficient = 10,
       groundGravityEnabled = False, groundGravityCoefficient = 10,
       mode3D = False, particles = [], dt = 1 / 100 \<rparr>"

text \<open>
  \<open>config.photonEmission\<close> of \<open>config.js\<close>. The code reads the two keys
  \<open>enabled\<close> and \<open>onePhotonPerElectron\<close> as truth values; a key that the
  configuration leaves out reads as \<open>undefined\<close>, which the tests treat as false.
\<close>

record Config =
  enabled :: bool
  onePhotonPerElectron :: bool

text \<open>The force vectors \<open>{fx, fy, fz}\<close> that the force functions return.\<close>

record Force =
  fx :: real
  fy :: real
  fz :: real

definition zeroForce :: Force where
  "zeroForce = \<lparr> fx = 0, fy = 0, fz = 0 \<rparr>"

section \<open>Force calculator\<close>

text \<open>
  \<open>calculateElectrostaticForce\<close>. The denominator \<open>distanceSquared + 0.01\<close> is
  positive; the normalisation \<open>dx / distance\<close> divides by the distance itself, which
  is zero when the two particles coincide on the active axes (then \<open>dx = 0\<close> too and
  the quotient is \<open>NaN\<close>).
\<close>

definition calculateElectrostaticForce :: "Universe \<Rightarrow> Particle \<Rightarrow> Particle \<Rightarrow> error + Force" where
  "calculateElectrostaticForce u p1 p2 =
     (let dx = pos_x p2 - pos_x p1;
          dy = pos_y p2 - pos_y p1;
          dz = (if mode3D u then pos_z p2 - pos_z p1 else 0);
          distanceSquared = dx * dx + dy * dy + dz * dz;
          distance = sqrt distanceSquared;
          electrostaticForceMagnitude =
            - (electrostaticCoefficient u * charge p1 * charge p2) / (distanceSquared + 1 / 100)
      in if distance = 0 then Inl NonFinite
         else Inr \<lparr> fx = electrostaticForceMagnitude * (dx / distance),
                    fy = electrostaticForceMagnitude * (dy / distance),
                    fz = (if mode3D u then electrostaticForceMagnitude * (dz / distance) else 0) \<rparr>)"

text \<open>
  \<open>calculateStrongForce\<close>: \<open>distanceQuartic\<close> and \<open>distance\<close> are zero together.
\<close>

definition calculateStrongForce :: "Universe \<Rightarrow> Particle \<Rightarrow> Particle \<Rightarrow> error + Force" where
  "calculateStrongForce u p1 p2 =
     (let dx = pos_x p2 - pos_x p1;
          dy = pos_y p2 - pos_y p1;
          dz = (if mode3D u then pos_z p2 - pos_z p1 else 0);
          distanceSquared = dx * dx + dy * dy + dz * dz;
          distance = sqrt distanceSquared;
          distanceQuartic = distanceSquared * distanceSquared
      in if distanceQuartic = 0 \<or> distance = 0 then Inl NonFinite
         else let strongForceMagnitude = (strongForceCoefficient u * (1 / 10 ^ 10)) / distanceQuartic
              in Inr \<lparr> fx = - strongForceMagnitude * (dx / distance),
                         fy = - strongForceMagnitude * (dy / distance),
                         fz = (if mode3D u then - strongForceMagnitude * (dz / distance) else 0) \<rparr>)"

text \<open>
  \<open>calculateGravityForce\<close>: the centre is the literal point \<open>(0.5, 0.5, 0.5)\<close>, and
  the division by the distance is guarded by \<open>distance <= 1e-6\<close>.
\<close>

definition calculateGravityForce :: "Universe \<Rightarrow> Particle \<Rightarrow> Force" where
  "calculateGravityForce u particle =
     (let centerX = 1 / 2; centerY = 1 / 2; centerZ = 1 / 2;
          dx = centerX - pos_x particle;
          dy = centerY - pos_y particle;
          dz = (if mode3D u then centerZ - pos_z particle else 0);
          distanceSquared = dx * dx + dy * dy + dz * dz;
          distance = sqrt distanceSquared
      in if distance \<le> 1 / 10 ^ 6 then \<lparr> fx = 0, fy = 0, fz = 0 \<rparr>
         else let gravityForceMagnitude = mass particle * gravityCoefficient u * (1 / 10 ^ 6)
              in \<lparr> fx = gravityForceMagnitude * (dx / distance),
                    fy = gravityForceMagnitude * (dy / distance),
                    fz = (if mode3D u then gravityForceMagnitude * (dz / distance) else 0) \<rparr>)"

text \<open>\<open>calculateGroundGravityForce\<close>: the ground is the literal plane \<open>y = 1.0\<close>.\<close>

definition calculateGroundGravityForce :: "Universe \<Rightarrow> Particle \<Rightarrow> Force" where
  "calculateGroundGravityForce u particle =
     (let groundY = 1; dy = groundY - pos_y particle
      in if \<bar>dy\<bar> \<le> 1 / 10 ^ 6 then \<lparr> fx = 0, fy = 0, fz = 0 \<rparr>
         else \<lparr> fx = 0, fy = mass particle * groundGravityCoefficient u * (1 / 10 ^ 6), fz = 0 \<rparr>)"

text \<open>\<open>calculateForce\<close>: electrostatic force plus, when enabled, the strong force.\<close>

definition calculateForce :: "Universe \<Rightarrow> Particle \<Rightarrow> Particle \<Rightarrow> error + Force" where
  "calculateForce u p1 p2 =
     (case calculateElectrostaticForce u p1 p2 of
        Inl e \<Rightarrow> Inl e
      | Inr electrostaticForce \<Rightarrow>
          (case (if strongForceEnabled u then calculateStrongForce u p1 p2 else Inr zeroForce) of
             Inl e \<Rightarrow> Inl e
           | Inr strongForce \<Rightarrow>
               Inr \<lparr> fx = fx electrostaticForce + fx strongForce,
                      fy = fy electrostaticForce + fy strongForce,
                      fz = fz electrostaticForce + fz strongForce \<rparr>))"

section \<open>Randomness\<close>

text \<open>
  \<open>Math.random()\<close> is modelled by a sequence \<open>rnd :: nat \<Rightarrow> real\<close> of the values it
  returns and a counter \<open>k\<close> of the draws made so far: a draw reads \<open>rnd k\<close> and the
  counter becomes \<open>k + 1\<close>. Functions that draw return the new counter.
\<close>

type_synonym rng = "nat \<Rightarrow> real"

section \<open>Photon emission\<close>

text \<open>
  \<open>shouldEmitPhoton\<close>: the speed includes \<open>vz\<close> whatever the mode. The result is a
  boolean, so the quotient by the threshold never reaches the state; for a zero
  threshold the quotient is \<open>Infinity\<close> (positive speed: the comparison is true) or
  \<open>NaN\<close> (zero speed: the comparison is false).
\<close>

definition shouldEmitPhoton :: "Universe \<Rightarrow> rng \<Rightarrow> nat \<Rightarrow> Particle \<Rightarrow> bool \<times> nat" where
  "shouldEmitPhoton u rnd k particle =
     (let speed = sqrt (vel_x particle * vel_x particle + vel_y particle * vel_y particle
                        + vel_z particle * vel_z particle)
      in if speed < photonEmissionSpeedThreshold u then (False, k)
         else if photonEmissionSpeedThreshold u = 0 then (0 < speed, k + 1)
         else (rnd k < (1 / 10 ^ 5) * speed / photonEmissionSpeedThreshold u, k + 1))"

text \<open>
  \<open>managePhotonEmission\<close> returns the mutated electron and the photon (\<open>None\<close> for
  \<open>null\<close>). \<open>Math.sqrt(1 - photonEnergyRatio)\<close> is \<open>NaN\<close> for a ratio above 1; for
  a ratio of exactly 1 the reduction factor is \<open>Infinity\<close> and a finite number divided
  by it is 0. The photon's velocity divides by \<open>speed\<close>; it is used only when emission
  is enabled.
\<close>

definition managePhotonEmission ::
  "Config \<Rightarrow> Universe \<Rightarrow> Particle \<Rightarrow> real \<Rightarrow> real \<Rightarrow> real \<Rightarrow> real \<Rightarrow> real \<Rightarrow> error + (Particle \<times> Particle option)" where
  "managePhotonEmission cfg u particle speed vx vy vz photonEnergyRatio =
     (let initialKE = (1 / 2) * electronMass u * speed * speed;
          photonEnergy = photonEnergyRatio * initialKE
      in case jssqrt (1 - photonEnergyRatio) of
           Inl e \<Rightarrow> Inl e
         | Inr s \<Rightarrow>
             (let divideBySpeedReductionFactor = (\<lambda>v. if s = 0 then 0 else v / (1 / s));
                  particle' = particle
                    \<lparr> vel_x := divideBySpeedReductionFactor (vel_x particle),
                      vel_y := divideBySpeedReductionFactor (vel_y particle),
                      vel_z := (if mode3D u then divideBySpeedReductionFactor (vel_z particle)
                                else vel_z particle),
                      hasEmittedPhoton := True \<rparr>;
                  newSpeed = divideBySpeedReductionFactor speed;
                  photonSpeed = newSpeed
              in if enabled cfg then
                   (if speed = 0 then Inl NonFinite
                    else let photonVx = (vx / speed) * photonSpeed;
                             photonVy = (vy / speed) * photonSpeed;
                             photonVz = (if mode3D u then (vz / speed) * photonSpeed else 0)
                         in Inr (particle',
                                 Some (new_Particle (pos_x particle) (pos_y particle) photonVx photonVy
                                         0 0 False (pos_z particle) photonVz True photonEnergy)))
                 else Inr (particle', None)))"

text \<open>
  The local \<open>speed\<close> of the loop body of \<open>checkAndEmitPhotons\<close>: \<open>vz\<close> counts
  in 3D mode only.
\<close>

definition emissionSpeed :: "Universe \<Rightarrow> Particle \<Rightarrow> real" where
  "emissionSpeed u particle =
     (let vx = vel_x particle;
          vy = vel_y particle;
          vz = (if mode3D u then vel_z particle else 0)
      in sqrt (vx * vx + vy * vy + vz * vz))"

text \<open>
  The body of the loop of \<open>checkAndEmitPhotons\<close> for one particle: the particle as
  the loop leaves it, the photons it pushes on \<open>newPhotons\<close>, and the draw counter.
  The call of \<open>managePhotonEmission\<close> leaves \<open>photonEnergyRatio\<close> at its default 0.9.
\<close>

definition emitOne :: "Config \<Rightarrow> Universe \<Rightarrow> rng \<Rightarrow> nat \<Rightarrow> Particle \<Rightarrow> error + (Particle \<times> Particle list \<times> nat)" where
  "emitOne cfg u rnd k particle =
     (if charge particle \<ge> 0 \<or> isPhoton particle then Inr (particle, [], k)
      else if onePhotonPerElectron cfg \<and> hasEmittedPhoton particle then Inr (particle, [], k)
      else
        (let vx = vel_x particle;
             vy = vel_y particle;
             vz = (if mode3D u then vel_z particle else 0);
             speed = emissionSpeed u particle;
             (emit, k') = shouldEmitPhoton u rnd k particle
         in if emit then
              (case managePhotonEmission cfg u particle speed vx vy vz (9 / 10) of
                 Inl e \<Rightarrow> Inl e
               | Inr (particle', photon) \<Rightarrow>
                   Inr (particle', (case photon of None \<Rightarrow> [] | Some ph \<Rightarrow> [ph]), k'))
            else Inr (particle, [], k')))"

fun emitLoop :: "Config \<Rightarrow> Universe \<Rightarrow> rng \<Rightarrow> nat \<Rightarrow> Particle list \<Rightarrow> error + (Particle list \<times> Particle list \<times> nat)" where
  "emitLoop cfg u rnd k [] = Inr ([], [], k)"
| "emitLoop cfg u rnd k (particle # rest) =
     (case emitOne cfg u rnd k particle of
        Inl e \<Rightarrow> Inl e
      | Inr (particle', photons, k') \<Rightarrow>
          (case emitLoop cfg u rnd k' rest of
             Inl e \<Rightarrow> Inl e
           | Inr (rest', newPhotons, k'') \<Rightarrow> Inr (particle' # rest', photons @ newPhotons, k'')))"

text \<open>
  \<open>checkAndEmitPhotons\<close>: the new photons are appended (\<open>addParticle\<close>) after the
  loop over the particles.
\<close>

definition checkAndEmitPhotons :: "Config \<Rightarrow> Universe \<Rightarrow> rng \<Rightarrow> nat \<Rightarrow> error + (Universe \<times> nat)" where
  "checkAndEmitPhotons cfg u rnd k =
     (case emitLoop cfg u rnd k (particles u) of
        Inl e \<Rightarrow> Inl e
      | Inr (ps, newPhotons, k') \<Rightarrow> Inr (u \<lparr> particles := ps @ newPhotons \<rparr>, k'))"

section \<open>Photon absorption\<close>

text \<open>The distance of the collision test (the \<open>z\<close> term only in 3D mode).\<close>

definition collisionDistance :: "Universe \<Rightarrow> Particle \<Rightarrow> Particle \<Rightarrow> real" where
  "collisionDistance u photon electron =
     (let dx = pos_x electron - pos_x photon;
          dy = pos_y electron - pos_y photon;
          dz = (if mode3D u then pos_z electron - pos_z photon else 0)
      in sqrt (dx * dx + dy * dy + dz * dz))"

text \<open>
  The energy transfer inside the collision test of \<open>handlePhotonElectronCollisions\<close>:
  the electron with its new velocity, and the draw counter. \<open>2 * newKE / mass\<close>
  divides by the electron's mass, and its square root is \<open>NaN\<close> when it is negative.
  For an electron at rest the direction is drawn: \<open>theta\<close> first, then (3D only)
  \<open>phi\<close>.
\<close>

definition absorbPhoton :: "Universe \<Rightarrow> rng \<Rightarrow> nat \<Rightarrow> Particle \<Rightarrow> Particle \<Rightarrow> error + (Particle \<times> nat)" where
  "absorbPhoton u rnd k photon electron =
     (let currentSpeed = sqrt (vel_x electron * vel_x electron + vel_y electron * vel_y electron
                               + vel_z electron * vel_z electron);
          currentKE = (1 / 2) * mass electron * currentSpeed * currentSpeed;
          newKE = currentKE + energy photon
      in case jsdiv (2 * newKE) (mass electron) of
           Inl e \<Rightarrow> Inl e
         | Inr q \<Rightarrow>
             (case jssqrt q of
                Inl e \<Rightarrow> Inl e
              | Inr newSpeed \<Rightarrow>
                  if currentSpeed > 0 then
                    (let speedRatio = newSpeed / currentSpeed
                     in Inr (electron
                               \<lparr> vel_x := vel_x electron * speedRatio,
                                 vel_y := vel_y electron * speedRatio,
                                 vel_z := (if mode3D u then vel_z electron * speedRatio
                                           else vel_z electron) \<rparr>, k))
                  else
                    (let theta = rnd k * 2 * pi
                     in case (if mode3D u then jsacos (2 * rnd (k + 1) - 1) else Inr (pi / 2)) of
                          Inl e \<Rightarrow> Inl e
                        | Inr phi \<Rightarrow>
                            Inr (electron
                                   \<lparr> vel_x := newSpeed * sin phi * cos theta,
                                     vel_y := newSpeed * sin phi * sin theta,
                                     vel_z := (if mode3D u then newSpeed * cos phi
                                               else vel_z electron) \<rparr>,
                                 if mode3D u then k + 2 else k + 1))))"

text \<open>
  The inner loop over \<open>j\<close>, from \<open>j\<close> on: the particles, the draw counter, and
  whether the photon was absorbed (the loop breaks at the first absorbing electron).
\<close>

function scanElectrons :: "Universe \<Rightarrow> rng \<Rightarrow> Particle \<Rightarrow> Particle list \<Rightarrow> nat \<Rightarrow> nat \<Rightarrow> error + (Particle list \<times> nat \<times> bool)" where
  "scanElectrons u rnd photon ps k j =
     (if j < length ps then
        (if charge (ps ! j) \<ge> 0 \<or> isPhoton (ps ! j) then scanElectrons u rnd photon ps k (j + 1)
         else if collisionDistance u photon (ps ! j) < photonAbsorptionDistance u
                 \<and> age photon \<ge> photonMinAgeForAbsorption u then
           (case absorbPhoton u rnd k photon (ps ! j) of
              Inl e \<Rightarrow> Inl e
            | Inr (electron', k') \<Rightarrow> Inr (ps[j := electron'], k', True))
         else scanElectrons u rnd photon ps k (j + 1))
      else Inr (ps, k, False))"
  by pat_completeness auto
termination
  by (relation "measure (\<lambda>(u, rnd, photon, ps, k, j). length ps - j)") auto

declare scanElectrons.simps [simp del]

text \<open>
  The outer loop over \<open>i\<close>, from \<open>i\<close> on, with the list \<open>photonsToRemove\<close>.
\<close>

function scanPhotons :: "Universe \<Rightarrow> rng \<Rightarrow> Particle list \<Rightarrow> nat \<Rightarrow> nat list \<Rightarrow> nat \<Rightarrow> error + (Particle list \<times> nat \<times> nat list)" where
  "scanPhotons u rnd ps k photonsToRemove i =
     (if i < length ps then
        (if \<not> isPhoton (ps ! i) then scanPhotons u rnd ps k photonsToRemove (i + 1)
         else
           (case scanElectrons u rnd (ps ! i) ps k 0 of
              Inl e \<Rightarrow> Inl e
            | Inr (ps', k', absorbed) \<Rightarrow>
                scanPhotons u rnd ps' k'
                  (if absorbed \<and> i \<notin> set photonsToRemove then photonsToRemove @ [i]
                   else photonsToRemove) (i + 1)))
      else Inr (ps, k, photonsToRemove))"
  by pat_completeness auto
termination
proof -
  have len: "length ps' = length ps"
    if "scanElectrons u rnd photon ps k j = Inr (ps', k', b)"
    for u rnd photon ps k j ps' k' b
    using that
    by (induction u rnd photon ps k j rule: scanElectrons.induct)
       (subst (asm) scanElectrons.simps, auto split: if_splits sum.splits)
  show ?thesis
    by (relation "measure (\<lambda>(u, rnd, ps, k, photonsToRemove, i). length ps - i)")
       (auto dest: len)
qed

declare scanPhotons.simps [simp del]

text \<open>\<open>Array.prototype.splice(i, 1)\<close>: an index past the end removes nothing.\<close>

definition splice1 :: "'a list \<Rightarrow> nat \<Rightarrow> 'a list" where
  "splice1 xs i = take i xs @ drop (Suc i) xs"

text \<open>
  \<open>handlePhotonElectronCollisions\<close>: the scan, then the removal loop that walks
  \<open>photonsToRemove\<close> backwards; the result is the universe, the draw counter and the
  number of photons removed.
\<close>

definition handlePhotonElectronCollisions :: "Universe \<Rightarrow> rng \<Rightarrow> nat \<Rightarrow> error + (Universe \<times> nat \<times> nat)" where
  "handlePhotonElectronCollisions u rnd k =
     (case scanPhotons u rnd (particles u) k [] 0 of
        Inl e \<Rightarrow> Inl e
      | Inr (ps, k', photonsToRemove) \<Rightarrow>
          Inr (u \<lparr> particles := fold (\<lambda>i xs. splice1 xs i) (rev photonsToRemove) ps \<rparr>,
               k', length photonsToRemove))"

section \<open>Boundary handler\<close>

text \<open>
  \<open>applyBoundaryConditions\<close>: photons are reflected once per axis, the other
  particles are clamped and, when any axis was clamped, stopped. The \<open>z\<close> axis is
  handled in 3D mode only.
\<close>

definition applyBoundaryConditions :: "Universe \<Rightarrow> Particle \<Rightarrow> Particle" where
  "applyBoundaryConditions u particle =
     (if isPhoton particle then
        (let p1 = (if pos_x particle < 0
                   then particle \<lparr> pos_x := - pos_x particle, vel_x := - vel_x particle \<rparr>
                   else if pos_x particle > usize u
                   then particle \<lparr> pos_x := 2 * usize u - pos_x particle, vel_x := - vel_x particle \<rparr>
                   else particle);
             p2 = (if pos_y p1 < 0
                   then p1 \<lparr> pos_y := - pos_y p1, vel_y := - vel_y p1 \<rparr>
                   else if pos_y p1 > usize u
                   then p1 \<lparr> pos_y := 2 * usize u - pos_y p1, vel_y := - vel_y p1 \<rparr>
                   else p1)
         in if mode3D u then
              (if pos_z p2 < 0
               then p2 \<lparr> pos_z := - pos_z p2, vel_z := - vel_z p2 \<rparr>
               else if pos_z p2 > usize u
               then p2 \<lparr> pos_z := 2 * usize u - pos_z p2, vel_z := - vel_z p2 \<rparr>
               else p2)
            else p2)
      else
        (let (p1, hit1) = (if pos_x particle < 0 then (particle \<lparr> pos_x := 0 \<rparr>, True)
                           else if pos_x particle > usize u
                           then (particle \<lparr> pos_x := usize u \<rparr>, True)
                           else (particle, False));
             (p2, hit2) = (if pos_y p1 < 0 then (p1 \<lparr> pos_y := 0 \<rparr>, True)
                           else if pos_y p1 > usize u then (p1 \<lparr> pos_y := usize u \<rparr>, True)
                           else (p1, hit1));
             (p3, hitBoundary) =
                          (if mode3D u then
                             (if pos_z p2 < 0 then (p2 \<lparr> pos_z := 0 \<rparr>, True)
                              else if pos_z p2 > usize u then (p2 \<lparr> pos_z := usize u \<rparr>, True)
                              else (p2, hit2))
                           else (p2, hit2))
         in if hitBoundary then
              (let p4 = p3 \<lparr> vel_x := 0, vel_y := 0, accelerationX := 0, accelerationY := 0 \<rparr>
               in if mode3D u then p4 \<lparr> vel_z := 0, accelerationZ := 0 \<rparr> else p4)
            else p3))"

section \<open>Integrator\<close>

text \<open>
  \<open>updateParticleMotion\<close>. The diagnostic force fields are stored before the two
  skip tests. The acceleration divides by the particle's mass.
\<close>

definition updateParticleMotion :: "Universe \<Rightarrow> Particle \<Rightarrow> real \<Rightarrow> real \<Rightarrow> real \<Rightarrow> error + Particle" where
  "updateParticleMotion u particle forceX forceY forceZ =
     (if isPhoton particle then
        (let p1 = particle \<lparr> pos_x := pos_x particle + vel_x particle * dt u,
                             pos_y := pos_y particle + vel_y particle * dt u \<rparr>;
             p2 = (if mode3D u then p1 \<lparr> pos_z := pos_z p1 + vel_z p1 * dt u \<rparr> else p1);
             p3 = p2 \<lparr> age := age p2 + 1 \<rparr>
         in Inr (applyBoundaryConditions u p3))
      else
        (let p1 = particle \<lparr> forceElectroX := forceX, forceElectroY := forceY,
                             forceElectroZ := forceZ \<rparr>
         in if fixed p1 then Inr p1
            else if staticProtons u \<and> charge p1 > 0 then Inr p1
            else if mass p1 = 0 then Inl NonFinite
            else
              (let ax = forceX / mass p1;
                   ay = forceY / mass p1;
                   az = (if mode3D u then forceZ / mass p1 else 0);
                   p2 = p1 \<lparr> accelerationX := ax, accelerationY := ay, accelerationZ := az \<rparr>;
                   p3 = p2 \<lparr> vel_x := vel_x p2 + ax * dt u, vel_y := vel_y p2 + ay * dt u \<rparr>;
                   p4 = (if mode3D u then p3 \<lparr> vel_z := vel_z p3 + az * dt u \<rparr> else p3);
                   p5 = p4 \<lparr> pos_x := pos_x p4 + vel_x p4 * dt u,
                               pos_y := pos_y p4 + vel_y p4 * dt u \<rparr>;
                   p6 = (if mode3D u then p5 \<lparr> pos_z := pos_z p5 + vel_z p5 * dt u \<rparr> else p5)
               in Inr (applyBoundaryConditions u p6))))"

section \<open>Step orchestrator\<close>

text \<open>
  The two updates of the inner pairwise loop: \<open>forces[i] += force\<close> and
  \<open>forces[j] -= force\<close>, component by component.
\<close>

definition addForce :: "Force \<Rightarrow> Force \<Rightarrow> Force" where
  "addForce a b = \<lparr> fx = fx a + fx b, fy = fy a + fy b, fz = fz a + fz b \<rparr>"

definition subForce :: "Force \<Rightarrow> Force \<Rightarrow> Force" where
  "subForce a b = \<lparr> fx = fx a - fx b, fy = fy a - fy b, fz = fz a - fz b \<rparr>"

definition accumulatePair :: "Force list \<Rightarrow> nat \<Rightarrow> nat \<Rightarrow> Force \<Rightarrow> Force list" where
  "accumulatePair forces i j force =
     (let forces1 = forces[i := addForce (forces ! i) force]
      in forces1[j := subForce (forces1 ! j) force])"

text \<open>The inner loop over \<open>j\<close> of the pairwise accumulation, from \<open>j\<close> on.\<close>

function pairInner :: "Universe \<Rightarrow> Particle list \<Rightarrow> nat \<Rightarrow> Force list \<Rightarrow> nat \<Rightarrow> error + Force list" where
  "pairInner u ps i forces j =
     (if j < length ps then
        (if isPhoton (ps ! j) then pairInner u ps i forces (j + 1)
         else
           (case calculateForce u (ps ! i) (ps ! j) of
              Inl e \<Rightarrow> Inl e
            | Inr force \<Rightarrow> pairInner u ps i (accumulatePair forces i j force) (j + 1)))
      else Inr forces)"
  by pat_completeness auto
termination
  by (relation "measure (\<lambda>(u, ps, i, forces, j). length ps - j)") auto

declare pairInner.simps [simp del]

text \<open>The outer loop over \<open>i\<close>, from \<open>i\<close> on; the inner loop starts at \<open>i + 1\<close>.\<close>

function pairOuter :: "Universe \<Rightarrow> Particle list \<Rightarrow> Force list \<Rightarrow> nat \<Rightarrow> error + Force list" where
  "pairOuter u ps forces i =
     (if i < length ps then
        (if isPhoton (ps ! i) then pairOuter u ps forces (i + 1)
         else
           (case pairInner u ps i forces (i + 1) of
              Inl e \<Rightarrow> Inl e
            | Inr forces' \<Rightarrow> pairOuter u ps forces' (i + 1)))
      else Inr forces)"
  by pat_completeness auto
termination
  by (relation "measure (\<lambda>(u, ps, forces, i). length ps - i)") auto

declare pairOuter.simps [simp del]

text \<open>
  The two field-force loops: each non-photon particle's entry of \<open>forces\<close> gets the
  field force added. \<open>forces\<close> has one entry per particle.
\<close>

definition addGravity :: "Universe \<Rightarrow> Particle list \<Rightarrow> Force list \<Rightarrow> Force list" where
  "addGravity u ps forces =
     map2 (\<lambda>p f. if isPhoton p then f else addForce f (calculateGravityForce u p)) ps forces"

definition addGroundGravity :: "Universe \<Rightarrow> Particle list \<Rightarrow> Force list \<Rightarrow> Force list" where
  "addGroundGravity u ps forces =
     map2 (\<lambda>p f. if isPhoton p then f else addForce f (calculateGroundGravityForce u p)) ps forces"

text \<open>The last loop of \<open>step\<close>: every particle is moved with its entry of \<open>forces\<close>.\<close>

fun updateAll :: "Universe \<Rightarrow> Particle list \<Rightarrow> Force list \<Rightarrow> error + Particle list" where
  "updateAll u (p # ps) (f # fs) =
     (case updateParticleMotion u p (fx f) (fy f) (fz f) of
        Inl e \<Rightarrow> Inl e
      | Inr p' \<Rightarrow> (case updateAll u ps fs of Inl e \<Rightarrow> Inl e | Inr ps' \<Rightarrow> Inr (p' # ps')))"
| "updateAll u ps fs = Inr []"

text \<open>The loop that resets the diagnostic force fields.\<close>

definition resetForceTracking :: "Particle \<Rightarrow> Particle" where
  "resetForceTracking p = p \<lparr> forceElectroX := 0, forceElectroY := 0, forceElectroZ := 0 \<rparr>"

text \<open>
  \<open>step\<close>. The first draw decides whether the particle counts are logged, which
  changes nothing in the universe.
\<close>

definition step :: "Config \<Rightarrow> Universe \<Rightarrow> rng \<Rightarrow> nat \<Rightarrow> error + (Universe \<times> nat)" where
  "step cfg u rnd k =
     (case handlePhotonElectronCollisions u rnd (k + 1) of
        Inl e \<Rightarrow> Inl e
      | Inr (u1, k1, removed) \<Rightarrow>
          (case checkAndEmitPhotons cfg u1 rnd k1 of
             Inl e \<Rightarrow> Inl e
           | Inr (u2, k2) \<Rightarrow>
               (let forces0 = map (\<lambda>p. zeroForce) (particles u2);
                    ps = map resetForceTracking (particles u2)
                in case pairOuter u2 ps forces0 0 of
                     Inl e \<Rightarrow> Inl e
                   | Inr forces1 \<Rightarrow>
                       (let forces2 = (if gravityEnabled u2 then addGravity u2 ps forces1 else forces1);
                            forces3 = (if groundGravityEnabled u2 then addGroundGravity u2 ps forces2
                                       else forces2)
                        in case updateAll u2 ps forces3 of
                             Inl e \<Rightarrow> Inl e
                           | Inr ps' \<Rightarrow> Inr (u2 \<lparr> particles := ps' \<rparr>, k2)))))"

section \<open>Notions used in the statements\<close>

text \<open>
  An electron, as the emission and absorption loops select it: the negation of
  \<open>charge >= 0 || isPhoton\<close>.
\<close>

definition isElectron :: "Particle \<Rightarrow> bool" where
  "isElectron p = (\<not> (charge p \<ge> 0 \<or> isPhoton p))"

text \<open>The collision test of \<open>handlePhotonElectronCollisions\<close> for a photon and an electron.\<close>

definition absorbs :: "Universe \<Rightarrow> Particle \<Rightarrow> Particle \<Rightarrow> bool" where
  "absorbs u photon e =
     (isElectron e \<and> collisionDistance u photon e < photonAbsorptionDistance u
      \<and> age photon \<ge> photonMinAgeForAbsorption u)"

text \<open>
  The photon at index \<open>i\<close> of the particle list meets the collision test with some
  electron of the list.
\<close>

definition isAbsorbed :: "Universe \<Rightarrow> Particle list \<Rightarrow> nat \<Rightarrow> bool" where
  "isAbsorbed u ps i =
     (isPhoton (ps ! i) \<and> (\<exists>j < length ps. absorbs u (ps ! i) (ps ! j)))"

text \<open>
  \<open>q\<close> is the particle \<open>p\<close> up to its velocity; in 2D mode \<open>vz\<close> is kept as well.
\<close>

definition sameButVelocity :: "Universe \<Rightarrow> Particle \<Rightarrow> Particle \<Rightarrow> bool" where
  "sameButVelocity u p q =
     (q = p \<lparr> vel_x := vel_x q, vel_y := vel_y q, vel_z := vel_z q \<rparr>
      \<and> (\<not> mode3D u \<longrightarrow> vel_z q = vel_z p))"


text \<open>
  The position update of the photon branch of \<open>updateParticleMotion\<close>, before the
  boundary conditions are applied.
\<close>

definition movedPhoton :: "Universe \<Rightarrow> Particle \<Rightarrow> Particle" where
  "movedPhoton u p =
     p \<lparr> pos_x := pos_x p + vel_x p * dt u,
         pos_y := pos_y p + vel_y p * dt u,
         pos_z := (if mode3D u then pos_z p + vel_z p * dt u else pos_z p),
         age := age p + 1 \<rparr>"

text \<open>
  The Euler update of \<open>updateParticleMotion\<close> (diagnostics, then steps 1 to 3) for a
  particle that is neither a photon nor skipped, before the boundary conditions are
  applied.
\<close>

definition integrated :: "Universe \<Rightarrow> Particle \<Rightarrow> real \<Rightarrow> real \<Rightarrow> real \<Rightarrow> Particle" where
  "integrated u p forceX forceY forceZ =
     (let ax = forceX / mass p;
          ay = forceY / mass p;
          az = (if mode3D u then forceZ / mass p else 0)
      in p \<lparr> forceElectroX := forceX, forceElectroY := forceY, forceElectroZ := forceZ,
             accelerationX := ax, accelerationY := ay, accelerationZ := az,
             vel_x := vel_x p + ax * dt u,
             vel_y := vel_y p + ay * dt u,
             vel_z := (if mode3D u then vel_z p + az * dt u else vel_z p),
             pos_x := pos_x p + (vel_x p + ax * dt u) * dt u,
             pos_y := pos_y p + (vel_y p + ay * dt u) * dt u,
             pos_z := (if mode3D u then pos_z p + (vel_z p + az * dt u) * dt u else pos_z p) \<rparr>)"




section \<open>Properties of the force calculator\<close>


text \<open>
  Claim C9 (finite electrostatic force at zero separation). The softened denominator
  keeps the magnitude finite, but the direction is \<open>dx / distance\<close>: for two
  electrons at the same point of the default universe, \<open>dx = 0\<close> and
  \<open>distance = 0\<close>, the quotient is \<open>0 / 0\<close>, and the force that
  \<open>calculateElectrostaticForce\<close> returns is not a finite number.
\<close>

theorem calculateElectrostaticForce_coincident:
  "calculateElectrostaticForce (new_Universe 1 (1 / 1000))
     (new_Particle (1 / 2) (1 / 2) 0 0 (- 1) 1 False (1 / 2) 0 False 0)
     (new_Particle (1 / 2) (1 / 2) 0 0 (- 1) 1 False (1 / 2) 0 False 0) = Inl NonFinite"
  by (simp add: calculateElectrostaticForce_def new_Universe_def new_Particle_def)

text \<open>
  Claim C7 as stated (gravity toward \<open>(size/2, size/2, size/2)\<close>) fails: in a 3D
  universe of size 2 a particle of mass 1 at \<open>(0.5, 0.5, 0.5)\<close> is at distance
  \<open>sqrt 0.75\<close> from \<open>(1, 1, 1)\<close>, so the claim gives it a force of magnitude
  \<open>1 * 10 * 1e-6\<close>, and the code returns the zero vector.
\<close>

theorem calculateGravityForce_size_counterexample:
  "calculateGravityForce ((new_Universe 2 (1 / 1000)) \<lparr> mode3D := True \<rparr>)
      (new_Particle (1 / 2) (1 / 2) 0 0 (- 1) 1 False (1 / 2) 0 False 0)
     = \<lparr> fx = 0, fy = 0, fz = 0 \<rparr>
   \<and> sqrt ((2 / 2 - 1 / 2)\<^sup>2 + (2 / 2 - 1 / 2)\<^sup>2 + (2 / 2 - 1 / 2)\<^sup>2) > (1 / 10 ^ 6 :: real)
   \<and> (1 :: real) * 10 * (1 / 10 ^ 6) \<noteq> 0"
proof -
  have "(1 / 10 ^ 6 :: real) < sqrt ((2 / 2 - 1 / 2)\<^sup>2 + (2 / 2 - 1 / 2)\<^sup>2 + (2 / 2 - 1 / 2)\<^sup>2)"
    by (rule real_less_rsqrt) (simp add: power2_eq_square)
  then show ?thesis
    by (simp add: calculateGravityForce_def new_Universe_def new_Particle_def)
qed

text \<open>
  Claim C7, amended: whatever the size of the universe, \<open>calculateGravityForce\<close>
  pulls toward the fixed point \<open>(0.5, 0.5, 0.5)\<close>. With \<open>d\<close> the distance to that
  point (measured in the x-y plane in 2D mode, where the z component of the force is 0)
  the force is the zero vector when \<open>d \<le> 1e-6\<close>, and otherwise the unit vector toward
  the point scaled by \<open>M = mass * K_gravity * 1e-6\<close>, a vector of squared length
  \<open>M\<^sup>2\<close>.
\<close>

theorem calculateGravityForce_toward_half:
  "let dx = 1 / 2 - pos_x p;
       dy = 1 / 2 - pos_y p;
       dz = (if mode3D u then 1 / 2 - pos_z p else 0);
       d = sqrt (dx\<^sup>2 + dy\<^sup>2 + dz\<^sup>2);
       M = mass p * gravityCoefficient u * (1 / 10 ^ 6);
       F = calculateGravityForce u p
   in (d \<le> 1 / 10 ^ 6 \<longrightarrow> F = \<lparr> fx = 0, fy = 0, fz = 0 \<rparr>)
    \<and> (d > 1 / 10 ^ 6 \<longrightarrow>
         fx F = M * (dx / d) \<and> fy F = M * (dy / d) \<and> fz F = M * (dz / d)
         \<and> (fx F)\<^sup>2 + (fy F)\<^sup>2 + (fz F)\<^sup>2 = M\<^sup>2)"
proof -
  define dx dy dz where "dx = 1 / 2 - pos_x p" and "dy = 1 / 2 - pos_y p"
    and "dz = (if mode3D u then 1 / 2 - pos_z p else 0)"
  define d where "d = sqrt (dx\<^sup>2 + dy\<^sup>2 + dz\<^sup>2)"
  define M where "M = mass p * gravityCoefficient u * (1 / 10 ^ 6)"
  have F: "calculateGravityForce u p =
      (if d \<le> 1 / 10 ^ 6 then \<lparr> fx = 0, fy = 0, fz = 0 \<rparr>
       else \<lparr> fx = M * (dx / d), fy = M * (dy / d), fz = (if mode3D u then M * (dz / d) else 0) \<rparr>)"
    by (simp add: calculateGravityForce_def Let_def d_def dx_def dy_def dz_def M_def power2_eq_square)
  have dz0: "\<not> mode3D u \<Longrightarrow> dz = 0" by (simp add: dz_def)
  have norm: "(M * (dx / d))\<^sup>2 + (M * (dy / d))\<^sup>2 + (M * (dz / d))\<^sup>2 = M\<^sup>2" if "d > 1 / 10 ^ 6"
  proof -
    have dpos: "d > 0" using that by (simp add: less_trans [rotated])
    have d2: "d\<^sup>2 = dx\<^sup>2 + dy\<^sup>2 + dz\<^sup>2" by (simp add: d_def)
    have "(dx / d)\<^sup>2 + (dy / d)\<^sup>2 + (dz / d)\<^sup>2 = (dx\<^sup>2 + dy\<^sup>2 + dz\<^sup>2) / d\<^sup>2"
      by (simp add: power_divide add_divide_distrib)
    also have "\<dots> = 1" using dpos by (simp add: d2 [symmetric])
    finally have "(dx / d)\<^sup>2 + (dy / d)\<^sup>2 + (dz / d)\<^sup>2 = 1" .
    then have "M\<^sup>2 * ((dx / d)\<^sup>2 + (dy / d)\<^sup>2 + (dz / d)\<^sup>2) = M\<^sup>2" by simp
    moreover have "(M * (dx / d))\<^sup>2 + (M * (dy / d))\<^sup>2 + (M * (dz / d))\<^sup>2
        = M\<^sup>2 * ((dx / d)\<^sup>2 + (dy / d)\<^sup>2 + (dz / d)\<^sup>2)"
      by (simp only: power_mult_distrib distrib_left)
    ultimately show ?thesis by (simp only:)
  qed
  show ?thesis
    unfolding Let_def dx_def [symmetric] dy_def [symmetric] dz_def [symmetric]
      d_def [symmetric] M_def [symmetric]
    using norm dz0 by (auto simp: F)
qed

lemma sqrt_25: "sqrt 25 = 5"
  by (rule real_sqrt_unique) simp_all

text \<open>
  The theorem at a particle at \<open>(3.5, 4.5)\<close> of the default 2D universe, at distance 5
  from the centre, and at a particle at the centre.
\<close>

theorem calculateGravityForce_toward_half_witness:
  "(1 / 10 ^ 6 :: real) < 5
   \<and> fx (calculateGravityForce (new_Universe 1 (1 / 1000))
           (new_Particle (7 / 2) (9 / 2) 0 0 (- 1) 1 False (1 / 2) 0 False 0))
       = 1 * 10 * (1 / 10 ^ 6) * (- 3 / 5)
   \<and> fy (calculateGravityForce (new_Universe 1 (1 / 1000))
           (new_Particle (7 / 2) (9 / 2) 0 0 (- 1) 1 False (1 / 2) 0 False 0))
       = 1 * 10 * (1 / 10 ^ 6) * (- 4 / 5)
   \<and> calculateGravityForce (new_Universe 1 (1 / 1000))
           (new_Particle (1 / 2) (1 / 2) 0 0 (- 1) 1 False (1 / 2) 0 False 0)
       = \<lparr> fx = 0, fy = 0, fz = 0 \<rparr>"
  using calculateGravityForce_toward_half
          [of "new_Particle (7 / 2) (9 / 2) 0 0 (- 1) 1 False (1 / 2) 0 False 0"
              "new_Universe 1 (1 / 1000)"]
        calculateGravityForce_toward_half
          [of "new_Particle (1 / 2) (1 / 2) 0 0 (- 1) 1 False (1 / 2) 0 False 0"
              "new_Universe 1 (1 / 1000)"]
  by (simp add: Let_def new_Universe_def new_Particle_def sqrt_25)

section \<open>Properties of the integrator\<close>

text \<open>
  Claim C8 as stated (a skipped particle keeps its diagnostic force fields) fails:
  a fixed proton whose \<open>forceElectroX\<close> is 0 has the three force fields overwritten
  with the forces \<open>1, 2, 3\<close> passed to \<open>updateParticleMotion\<close>.
\<close>

theorem updateParticleMotion_skip_counterexample:
  "fixed (new_Particle (1 / 2) (1 / 2) 0 0 1 100 True (1 / 2) 0 False 0)
   \<and> \<not> isPhoton (new_Particle (1 / 2) (1 / 2) 0 0 1 100 True (1 / 2) 0 False 0)
   \<and> forceElectroX (new_Particle (1 / 2) (1 / 2) 0 0 1 100 True (1 / 2) 0 False 0) = 0
   \<and> (case updateParticleMotion (new_Universe 1 (1 / 1000))
              (new_Particle (1 / 2) (1 / 2) 0 0 1 100 True (1 / 2) 0 False 0) 1 2 3 of
         Inl e \<Rightarrow> False
       | Inr p' \<Rightarrow> forceElectroX p' = 1 \<and> forceElectroY p' = 2 \<and> forceElectroZ p' = 3)"
  by (simp add: updateParticleMotion_def new_Universe_def new_Particle_def)

text \<open>
  Claim C8, amended: for a non-photon particle that is fixed, or has a positive charge
  while \<open>staticProtons\<close> is on, \<open>updateParticleMotion\<close> stores the three forces it
  was given in the diagnostic force fields and changes nothing else: the position, the
  velocity and the diagnostic acceleration fields are those of the particle before the
  call.
\<close>

theorem updateParticleMotion_skip:
  assumes "\<not> isPhoton p" and "fixed p \<or> (staticProtons u \<and> charge p > 0)"
  shows "updateParticleMotion u p forceX forceY forceZ =
           Inr (p \<lparr> forceElectroX := forceX, forceElectroY := forceY, forceElectroZ := forceZ \<rparr>)"
  using assms by (auto simp: updateParticleMotion_def Let_def)

text \<open>The theorem at a moving, non-fixed proton of the default universe.\<close>

theorem updateParticleMotion_skip_witness:
  "updateParticleMotion (new_Universe 1 (1 / 1000))
     (new_Particle (1 / 4) (3 / 4) 5 6 1 100 False (1 / 2) 0 False 0) 1 2 3
   = Inr ((new_Particle (1 / 4) (3 / 4) 5 6 1 100 False (1 / 2) 0 False 0)
            \<lparr> forceElectroX := 1, forceElectroY := 2, forceElectroZ := 3 \<rparr>)"
  using updateParticleMotion_skip [of "new_Particle (1 / 4) (3 / 4) 5 6 1 100 False (1 / 2) 0 False 0"
      "new_Universe 1 (1 / 1000)" 1 2 3]
  by (simp add: new_Universe_def new_Particle_def)

section \<open>Properties of the pairwise accumulation\<close>

lemma accumulatePair_nth:
  assumes "i \<noteq> j" "i < length forces" "j < length forces"
  shows "accumulatePair forces i j force ! i = addForce (forces ! i) force"
    and "accumulatePair forces i j force ! j = subForce (forces ! j) force"
    and "m \<noteq> i \<Longrightarrow> m \<noteq> j \<Longrightarrow> accumulatePair forces i j force ! m = forces ! m"
    and "length (accumulatePair forces i j force) = length forces"
  using assms by (simp_all add: accumulatePair_def Let_def)

text \<open>
  Claim C6 (Newton's third law in the pairwise accumulation). One iteration of the
  inner loop for a pair \<open>i < j\<close> of non-photon particles whose force \<open>force\<close> is
  finite continues with an array \<open>forces'\<close> in which entry \<open>i\<close> has grown by
  \<open>force\<close> and entry \<open>j\<close> by its component-wise negation; no other entry changes.
\<close>

theorem pairInner_newton_third:
  assumes "i < j" and "j < length ps" and "length forces = length ps"
    and "\<not> isPhoton (ps ! j)"
    and "calculateForce u (ps ! i) (ps ! j) = Inr force"
  shows "\<exists>forces'. pairInner u ps i forces j = pairInner u ps i forces' (j + 1)
           \<and> length forces' = length forces
           \<and> subForce (forces' ! i) (forces ! i) = force
           \<and> fx (subForce (forces' ! j) (forces ! j)) = - fx (subForce (forces' ! i) (forces ! i))
           \<and> fy (subForce (forces' ! j) (forces ! j)) = - fy (subForce (forces' ! i) (forces ! i))
           \<and> fz (subForce (forces' ! j) (forces ! j)) = - fz (subForce (forces' ! i) (forces ! i))
           \<and> (\<forall>m. m \<noteq> i \<and> m \<noteq> j \<longrightarrow> forces' ! m = forces ! m)"
proof -
  let ?fs = "accumulatePair forces i j force"
  have ij: "i \<noteq> j" "i < length forces" "j < length forces"
    using assms by simp_all
  have step: "pairInner u ps i forces j = pairInner u ps i ?fs (j + 1)"
    using assms by (subst pairInner.simps) simp
  have "subForce (?fs ! i) (forces ! i) = force"
    by (simp add: accumulatePair_nth(1) [OF ij] addForce_def subForce_def)
  moreover have "fx (subForce (?fs ! j) (forces ! j)) = - fx force"
    "fy (subForce (?fs ! j) (forces ! j)) = - fy force"
    "fz (subForce (?fs ! j) (forces ! j)) = - fz force"
    by (simp_all add: accumulatePair_nth(2) [OF ij] subForce_def)
  ultimately show ?thesis
    using step accumulatePair_nth(3,4) [OF ij] by (intro exI [of _ ?fs]) simp
qed

lemma sum_list_update_real:
  fixes xs :: "real list"
  shows "k < length xs \<Longrightarrow> sum_list (xs[k := v]) = sum_list xs + v - xs ! k"
  by (induction xs arbitrary: k) (auto split: nat.splits)

lemma accumulatePair_total:
  assumes "i \<noteq> j" "i < length forces" "j < length forces"
  shows "sum_list (map fx (accumulatePair forces i j force)) = sum_list (map fx forces)"
    and "sum_list (map fy (accumulatePair forces i j force)) = sum_list (map fy forces)"
    and "sum_list (map fz (accumulatePair forces i j force)) = sum_list (map fz forces)"
  using assms
  by (simp_all add: accumulatePair_def Let_def map_update sum_list_update_real
        addForce_def subForce_def nth_list_update)

lemma pairInner_total:
  assumes "pairInner u ps i forces j = Inr forces'" "i < j" "length forces = length ps"
  shows "length forces' = length ps
       \<and> sum_list (map fx forces') = sum_list (map fx forces)
       \<and> sum_list (map fy forces') = sum_list (map fy forces)
       \<and> sum_list (map fz forces') = sum_list (map fz forces)"
  using assms
proof (induction u ps i forces j rule: pairInner.induct)
  case (1 u ps i forces j)
  show ?case
  proof (cases "j < length ps")
    case False
    with "1.prems" show ?thesis by (subst (asm) pairInner.simps) simp
  next
    case True
    show ?thesis
    proof (cases "isPhoton (ps ! j)")
      case ph: True
      from "1.prems"(1) True ph have "pairInner u ps i forces (j + 1) = Inr forces'"
        by (subst (asm) pairInner.simps) simp
      from "1.IH"(1) [OF True ph this] "1.prems" show ?thesis by simp
    next
      case ph: False
      from "1.prems"(1) True ph obtain force where
        f: "calculateForce u (ps ! i) (ps ! j) = Inr force"
        and r: "pairInner u ps i (accumulatePair forces i j force) (j + 1) = Inr forces'"
        by (subst (asm) pairInner.simps) (auto split: sum.splits)
      have ij: "i \<noteq> j" "i < length forces" "j < length forces"
        using "1.prems" True by simp_all
      have len: "length (accumulatePair forces i j force) = length ps"
        using accumulatePair_nth(4) [OF ij] "1.prems" by simp
      from "1.IH"(2) [OF True ph f r _ len] "1.prems"(2) accumulatePair_total [OF ij]
      show ?thesis by simp
    qed
  qed
qed

lemma pairOuter_total:
  assumes "pairOuter u ps forces i = Inr forces'" "length forces = length ps"
  shows "length forces' = length ps
       \<and> sum_list (map fx forces') = sum_list (map fx forces)
       \<and> sum_list (map fy forces') = sum_list (map fy forces)
       \<and> sum_list (map fz forces') = sum_list (map fz forces)"
  using assms
proof (induction u ps forces i rule: pairOuter.induct)
  case (1 u ps forces i)
  show ?case
  proof (cases "i < length ps")
    case False
    with "1.prems" show ?thesis by (subst (asm) pairOuter.simps) simp
  next
    case True
    show ?thesis
    proof (cases "isPhoton (ps ! i)")
      case ph: True
      from "1.prems"(1) True ph have "pairOuter u ps forces (i + 1) = Inr forces'"
        by (subst (asm) pairOuter.simps) simp
      from "1.IH"(1) [OF True ph this] "1.prems" show ?thesis by simp
    next
      case ph: False
      from "1.prems"(1) True ph obtain fs where
        f: "pairInner u ps i forces (i + 1) = Inr fs"
        and r: "pairOuter u ps fs (i + 1) = Inr forces'"
        by (subst (asm) pairOuter.simps) (auto split: sum.splits)
      from pairInner_total [OF f _ "1.prems"(2)] have fs: "length fs = length ps"
        "sum_list (map fx fs) = sum_list (map fx forces)"
        "sum_list (map fy fs) = sum_list (map fy forces)"
        "sum_list (map fz fs) = sum_list (map fz forces)" by simp_all
      from "1.IH"(2) [OF True ph f r fs(1)] fs show ?thesis by simp
    qed
  qed
qed

text \<open>
  The theorem at a proton at \<open>(0, 0)\<close> and an electron at \<open>(1, 0)\<close> of the
  default universe, whose force on the proton is \<open>(1/1010, 0, 0)\<close>.
\<close>

theorem pairInner_newton_third_witness:
  "\<exists>forces'.
      pairInner (new_Universe 1 (1 / 1000))
        [new_Particle 0 0 0 0 1 100 False (1 / 2) 0 False 0,
         new_Particle 1 0 0 0 (- 1) 1 False (1 / 2) 0 False 0] 0 [zeroForce, zeroForce] 1
      = pairInner (new_Universe 1 (1 / 1000))
        [new_Particle 0 0 0 0 1 100 False (1 / 2) 0 False 0,
         new_Particle 1 0 0 0 (- 1) 1 False (1 / 2) 0 False 0] 0 forces' (1 + 1)
    \<and> subForce (forces' ! 0) ([zeroForce, zeroForce] ! 0) = \<lparr> fx = 1 / 1010, fy = 0, fz = 0 \<rparr>
    \<and> fx (subForce (forces' ! 1) ([zeroForce, zeroForce] ! 1))
        = - fx (subForce (forces' ! 0) ([zeroForce, zeroForce] ! 0))"
proof -
  let ?p = "new_Particle 0 0 0 0 1 100 False (1 / 2) 0 False 0"
  let ?e = "new_Particle 1 0 0 0 (- 1) 1 False (1 / 2) 0 False 0"
  let ?u = "new_Universe 1 (1 / 1000)"
  let ?f = "\<lparr> fx = 1 / 1010, fy = 0, fz = 0 \<rparr>"
  have f: "calculateForce ?u ([?p, ?e] ! 0) ([?p, ?e] ! 1) = Inr ?f"
    by (simp add: calculateForce_def calculateElectrostaticForce_def new_Universe_def
        new_Particle_def zeroForce_def)
  have ph: "\<not> isPhoton ([?p, ?e] ! 1)" by (simp add: new_Particle_def)
  have ix: "(0::nat) < 1" "1 < length [?p, ?e]" "length [zeroForce, zeroForce] = length [?p, ?e]"
    by simp_all
  from pairInner_newton_third [OF ix ph f] show ?thesis by blast
qed

section \<open>Properties of the boundary handler within a step\<close>



lemma handlePhotonElectronCollisions_frame:
  assumes "handlePhotonElectronCollisions u rnd k = Inr (u1, k1, n)"
  shows "usize u1 = usize u" and "mode3D u1 = mode3D u" and "dt u1 = dt u"
    and "staticProtons u1 = staticProtons u"
    and "photonEmissionSpeedThreshold u1 = photonEmissionSpeedThreshold u"
    and "electronMass u1 = electronMass u"
  using assms by (auto simp: handlePhotonElectronCollisions_def split: sum.splits)




lemma applyBoundaryConditions_kind:
  "isPhoton (applyBoundaryConditions u p) = isPhoton p"
  "fixed (applyBoundaryConditions u p) = fixed p"
  "charge (applyBoundaryConditions u p) = charge p"
  by (simp_all add: applyBoundaryConditions_def Let_def split: prod.splits)

lemma updateParticleMotion_of_photon:
  "isPhoton p \<Longrightarrow>
     updateParticleMotion u p F1 F2 F3 = Inr (applyBoundaryConditions u (movedPhoton u p))"
  by (cases "mode3D u") (simp_all add: updateParticleMotion_def movedPhoton_def Let_def)

lemma updateParticleMotion_of_other:
  "\<not> isPhoton p \<Longrightarrow>
     updateParticleMotion u p F1 F2 F3 =
       (if fixed p \<or> (staticProtons u \<and> charge p > 0)
        then Inr (p \<lparr> forceElectroX := F1, forceElectroY := F2, forceElectroZ := F3 \<rparr>)
        else if mass p = 0 then Inl NonFinite
        else Inr (applyBoundaryConditions u (integrated u p F1 F2 F3)))"
  by (cases "mode3D u") (simp_all add: updateParticleMotion_def integrated_def Let_def)

lemma integrated_kind:
  "isPhoton (integrated u p F1 F2 F3) = isPhoton p"
  "fixed (integrated u p F1 F2 F3) = fixed p"
  "charge (integrated u p F1 F2 F3) = charge p"
  by (simp_all add: integrated_def Let_def)


lemma updateParticleMotion_photon:
  assumes "updateParticleMotion u p F1 F2 F3 = Inr q" and "isPhoton q"
  shows "isPhoton p \<and> q = applyBoundaryConditions u (movedPhoton u p)"
proof (cases "isPhoton p")
  case True
  with assms(1) show ?thesis by (simp add: updateParticleMotion_of_photon)
next
  case False
  with assms have False
    by (auto simp: updateParticleMotion_of_other applyBoundaryConditions_kind integrated_kind
        split: if_splits)
  then show ?thesis ..
qed




lemma reflect_velocity:
  assumes "isPhoton p"
  shows "\<bar>vel_x (applyBoundaryConditions u p)\<bar> = \<bar>vel_x p\<bar>"
    and "\<bar>vel_y (applyBoundaryConditions u p)\<bar> = \<bar>vel_y p\<bar>"
    and "\<bar>vel_z (applyBoundaryConditions u p)\<bar> = \<bar>vel_z p\<bar>"
  using assms by (simp_all add: applyBoundaryConditions_def Let_def)

lemma reflect_range:
  assumes "isPhoton p"
  shows "(0 \<le> pos_x (applyBoundaryConditions u p) \<and> pos_x (applyBoundaryConditions u p) \<le> usize u)
          \<longleftrightarrow> (- usize u \<le> pos_x p \<and> pos_x p \<le> 2 * usize u)"
    and "(0 \<le> pos_y (applyBoundaryConditions u p) \<and> pos_y (applyBoundaryConditions u p) \<le> usize u)
          \<longleftrightarrow> (- usize u \<le> pos_y p \<and> pos_y p \<le> 2 * usize u)"
    and "mode3D u \<Longrightarrow>
         (0 \<le> pos_z (applyBoundaryConditions u p) \<and> pos_z (applyBoundaryConditions u p) \<le> usize u)
          \<longleftrightarrow> (- usize u \<le> pos_z p \<and> pos_z p \<le> 2 * usize u)"
  using assms by (auto simp: applyBoundaryConditions_def Let_def)

lemmas eval_defs = step_def handlePhotonElectronCollisions_def checkAndEmitPhotons_def
  scanPhotons.simps scanElectrons.simps pairOuter.simps pairInner.simps emitOne_def
  shouldEmitPhoton_def managePhotonEmission_def updateParticleMotion_def emissionSpeed_def
  applyBoundaryConditions_def new_Universe_def new_Particle_def resetForceTracking_def
  zeroForce_def Let_def splice1_def collisionDistance_def absorbPhoton_def
  calculateForce_def calculateElectrostaticForce_def accumulatePair_def addForce_def subForce_def
  jsdiv_def jssqrt_def

text \<open>
  Claim C5 (after a step a photon's coordinate on every active axis is in
  \<open>[0, size]\<close>, and the reflection leaves its speed unchanged). The boundary
  handler reflects once per axis: a photon at \<open>(0.5, 0.5)\<close> of the default universe
  with \<open>vx = 300\<close> moves to \<open>x = 3.5\<close> in one step, and the reflection
  \<open>2 * size - x\<close> leaves it at \<open>x = -1.5\<close>, outside the domain, with
  \<open>vx = -300\<close>.
\<close>

theorem step_photon_reflection_escapes:
  "step \<lparr> enabled = False, onePhotonPerElectron = False \<rparr>
      ((new_Universe 1 (1 / 1000))
         \<lparr> particles := [new_Particle (1 / 2) (1 / 2) 300 0 0 0 False (1 / 2) 0 True 1] \<rparr>)
      (\<lambda>n. 1 / 2) 0
    = Inr ((new_Universe 1 (1 / 1000))
         \<lparr> particles := [(new_Particle (- 3 / 2) (1 / 2) (- 300) 0 0 0 False (1 / 2) 0 True 1)
                            \<lparr> age := 1 \<rparr>] \<rparr>, 1)"
  by (simp add: eval_defs)

section \<open>Properties of the photon absorption\<close>

lemma absorbPhoton_sameButVelocity:
  "absorbPhoton u rnd k photon e = Inr (e', k') \<Longrightarrow> sameButVelocity u e e'"
  by (auto simp: absorbPhoton_def sameButVelocity_def Let_def split: sum.splits if_splits)

lemma sameButVelocity_refl: "sameButVelocity u p p"
  by (simp add: sameButVelocity_def)

lemma sameButVelocity_trans:
  "sameButVelocity u p q \<Longrightarrow> sameButVelocity u q r \<Longrightarrow> sameButVelocity u p r"
  unfolding sameButVelocity_def
  by (cases p, cases q, cases r) auto

lemma sameButVelocity_fields:
  assumes "sameButVelocity u p q"
  shows "isPhoton q = isPhoton p" and "charge q = charge p" and "age q = age p"
    and "pos_x q = pos_x p" and "pos_y q = pos_y p" and "pos_z q = pos_z p"
    and "energy q = energy p" and "mass q = mass p"
    and "\<not> mode3D u \<Longrightarrow> vel_z q = vel_z p"
  using assms unfolding sameButVelocity_def
  by (cases p; cases q; simp)+

lemma absorbs_sameButVelocity:
  assumes "sameButVelocity u p p'" and "sameButVelocity u e e'"
  shows "absorbs u p' e' = absorbs u p e"
  using sameButVelocity_fields [OF assms(1)] sameButVelocity_fields [OF assms(2)]
  by (simp add: absorbs_def isElectron_def collisionDistance_def)
lemma scanElectrons_unfold:
  "j < length ps \<Longrightarrow>
     scanElectrons u rnd photon ps k j =
       (if absorbs u photon (ps ! j)
        then (case absorbPhoton u rnd k photon (ps ! j) of
                Inl e \<Rightarrow> Inl e
              | Inr (electron', k') \<Rightarrow> Inr (ps[j := electron'], k', True))
        else scanElectrons u rnd photon ps k (j + 1))"
  by (subst scanElectrons.simps) (auto simp: absorbs_def isElectron_def)

lemma scanElectrons_done:
  "\<not> j < length ps \<Longrightarrow> scanElectrons u rnd photon ps k j = Inr (ps, k, False)"
  by (subst scanElectrons.simps) simp

lemma scanElectrons_result:
  assumes "scanElectrons u rnd photon ps k j = Inr (ps', k', b)"
  shows "(b \<longleftrightarrow> (\<exists>m. j \<le> m \<and> m < length ps \<and> absorbs u photon (ps ! m)))
       \<and> (\<not> b \<longrightarrow> ps' = ps \<and> k' = k)
       \<and> (b \<longrightarrow> (\<exists>m e'. j \<le> m \<and> m < length ps \<and> absorbs u photon (ps ! m)
                 \<and> (\<forall>i. j \<le> i \<and> i < m \<longrightarrow> \<not> absorbs u photon (ps ! i))
                 \<and> absorbPhoton u rnd k photon (ps ! m) = Inr (e', k') \<and> ps' = ps[m := e']))"
  using assms
proof (induction "length ps - j" arbitrary: j)
  case 0
  then have "\<not> j < length ps" by simp
  with "0.prems" show ?case by (auto simp: scanElectrons_done)
next
  case (Suc n)
  then have j: "j < length ps" by simp
  show ?case
  proof (cases "absorbs u photon (ps ! j)")
    case True
    with Suc.prems j obtain e' where
      e': "absorbPhoton u rnd k photon (ps ! j) = Inr (e', k')" and ps': "ps' = ps[j := e']"
      and b: "b"
      by (auto simp: scanElectrons_unfold split: sum.splits)
    have "\<exists>m e'. j \<le> m \<and> m < length ps \<and> absorbs u photon (ps ! m)
                 \<and> (\<forall>i. j \<le> i \<and> i < m \<longrightarrow> \<not> absorbs u photon (ps ! i))
                 \<and> absorbPhoton u rnd k photon (ps ! m) = Inr (e', k') \<and> ps' = ps[m := e']"
      using True j e' ps' by (intro exI [of _ j] exI [of _ e']) auto
    with b True j show ?thesis by blast
  next
    case False
    with Suc.prems j have r: "scanElectrons u rnd photon ps k (j + 1) = Inr (ps', k', b)"
      by (simp add: scanElectrons_unfold)
    have n: "n = length ps - (j + 1)" using Suc.hyps(2) by simp
    note IH = Suc.hyps(1) [OF n r]
    have shift: "(\<exists>m. j \<le> m \<and> m < length ps \<and> absorbs u photon (ps ! m))
        \<longleftrightarrow> (\<exists>m. j + 1 \<le> m \<and> m < length ps \<and> absorbs u photon (ps ! m))"
      using False by (metis Suc_eq_plus1 Suc_leI le_eq_less_or_eq Suc_leD)
    have first: "(\<forall>i. j \<le> i \<and> i < m \<longrightarrow> \<not> absorbs u photon (ps ! i))
        \<longleftrightarrow> (\<forall>i. j + 1 \<le> i \<and> i < m \<longrightarrow> \<not> absorbs u photon (ps ! i))" for m
      using False by (metis Suc_eq_plus1 Suc_leI le_eq_less_or_eq Suc_leD)
    show ?thesis
    proof (intro conjI)
      show "b \<longleftrightarrow> (\<exists>m. j \<le> m \<and> m < length ps \<and> absorbs u photon (ps ! m))"
        using IH shift by simp
      show "\<not> b \<longrightarrow> ps' = ps \<and> k' = k" using IH by simp
      show "b \<longrightarrow> (\<exists>m e'. j \<le> m \<and> m < length ps \<and> absorbs u photon (ps ! m)
                 \<and> (\<forall>i. j \<le> i \<and> i < m \<longrightarrow> \<not> absorbs u photon (ps ! i))
                 \<and> absorbPhoton u rnd k photon (ps ! m) = Inr (e', k') \<and> ps' = ps[m := e'])"
      proof
        assume b
        with IH obtain m e' where m: "j + 1 \<le> m" "m < length ps" "absorbs u photon (ps ! m)"
          "\<forall>i. j + 1 \<le> i \<and> i < m \<longrightarrow> \<not> absorbs u photon (ps ! i)"
          "absorbPhoton u rnd k photon (ps ! m) = Inr (e', k')" "ps' = ps[m := e']"
          by blast
        have "j \<le> m" using m(1) by simp
        moreover have "\<forall>i. j \<le> i \<and> i < m \<longrightarrow> \<not> absorbs u photon (ps ! i)"
          using m(4) first by simp
        ultimately show "\<exists>m e'. j \<le> m \<and> m < length ps \<and> absorbs u photon (ps ! m)
                 \<and> (\<forall>i. j \<le> i \<and> i < m \<longrightarrow> \<not> absorbs u photon (ps ! i))
                 \<and> absorbPhoton u rnd k photon (ps ! m) = Inr (e', k') \<and> ps' = ps[m := e']"
          using m(2,3,5,6) by blast
      qed
    qed
  qed
qed

lemma scanElectrons_pointwise:
  assumes "scanElectrons u rnd photon ps k j = Inr (ps', k', b)"
  shows "list_all2 (sameButVelocity u) ps ps'"
proof (cases b)
  case False
  with scanElectrons_result [OF assms] have "ps' = ps" by simp
  then show ?thesis by (simp add: list_all2_same sameButVelocity_refl)
next
  case True
  with scanElectrons_result [OF assms] obtain m e' where
    m: "m < length ps" and e': "absorbPhoton u rnd k photon (ps ! m) = Inr (e', k')"
    and ps': "ps' = ps[m := e']" by blast
  show ?thesis
    unfolding ps' list_all2_conv_all_nth
    using absorbPhoton_sameButVelocity [OF e'] m
    by (auto simp: nth_list_update sameButVelocity_refl)
qed
lemma isAbsorbed_pointwise:
  assumes "list_all2 (sameButVelocity u) ps ps1" and "x < length ps"
  shows "isAbsorbed u ps1 x = isAbsorbed u ps x"
proof -
  have len: "length ps1 = length ps" using assms(1) by (simp add: list_all2_lengthD)
  have nth: "sameButVelocity u (ps ! m) (ps1 ! m)" if "m < length ps" for m
    using assms(1) that by (simp add: list_all2_nthD)
  have "absorbs u (ps1 ! x) (ps1 ! m) = absorbs u (ps ! x) (ps ! m)" if "m < length ps" for m
    using absorbs_sameButVelocity [OF nth [OF assms(2)] nth [OF that]] .
  moreover have "isPhoton (ps1 ! x) = isPhoton (ps ! x)"
    using sameButVelocity_fields(1) [OF nth [OF assms(2)]] .
  ultimately show ?thesis by (auto simp: isAbsorbed_def len)
qed

lemma list_all2_sameButVelocity_trans:
  "list_all2 (sameButVelocity u) xs ys \<Longrightarrow> list_all2 (sameButVelocity u) ys zs \<Longrightarrow>
     list_all2 (sameButVelocity u) xs zs"
  by (rule list_all2_trans [of "sameButVelocity u" "sameButVelocity u" "sameButVelocity u"])
     (auto intro: sameButVelocity_trans)

lemma scanPhotons_result:
  assumes "scanPhotons u rnd ps k r i = Inr (ps', k', r')" and "\<forall>x\<in>set r. x < i"
  shows "list_all2 (sameButVelocity u) ps ps' \<and> r' = r @ filter (isAbsorbed u ps) [i..<length ps]"
  using assms
proof (induction "length ps - i" arbitrary: i ps k r)
  case 0
  then have "\<not> i < length ps" by simp
  with "0.prems"(1) show ?case
    by (subst (asm) scanPhotons.simps) (simp add: list_all2_same sameButVelocity_refl)
next
  case (Suc n)
  then have i: "i < length ps" by simp
  have upt: "[i..<length ps] = i # [i + 1..<length ps]" using i by (simp add: upt_conv_Cons)
  have rlt: "\<forall>x\<in>set r. x < i + 1" using Suc.prems(2) by auto
  show ?case
  proof (cases "isPhoton (ps ! i)")
    case False
    with Suc.prems(1) i have r: "scanPhotons u rnd ps k r (i + 1) = Inr (ps', k', r')"
      by (subst (asm) scanPhotons.simps) simp
    have n: "n = length ps - (i + 1)" using Suc.hyps(2) by simp
    from Suc.hyps(1) [OF n r rlt] False upt show ?thesis by (simp add: isAbsorbed_def)
  next
    case True
    with Suc.prems(1) i obtain ps1 k1 b where
      se: "scanElectrons u rnd (ps ! i) ps k 0 = Inr (ps1, k1, b)"
      and r: "scanPhotons u rnd ps1 k1 (if b \<and> i \<notin> set r then r @ [i] else r) (i + 1)
                = Inr (ps', k', r')"
      by (subst (asm) scanPhotons.simps) (auto split: sum.splits)
    have rel1: "list_all2 (sameButVelocity u) ps ps1" by (rule scanElectrons_pointwise [OF se])
    then have len1: "length ps1 = length ps" by (simp add: list_all2_lengthD)
    have notin: "i \<notin> set r" using Suc.prems(2) by auto
    have b: "b \<longleftrightarrow> isAbsorbed u ps i"
      using scanElectrons_result [OF se] True by (auto simp: isAbsorbed_def)
    let ?r1 = "if b then r @ [i] else r"
    have r1: "scanPhotons u rnd ps1 k1 ?r1 (i + 1) = Inr (ps', k', r')"
      using r notin by simp
    have r1lt: "\<forall>x\<in>set ?r1. x < i + 1" using Suc.prems(2) by auto
    have n: "n = length ps1 - (i + 1)" using Suc.hyps(2) len1 by simp
    from Suc.hyps(1) [OF n r1 r1lt]
    have rel2: "list_all2 (sameButVelocity u) ps1 ps'"
      and r': "r' = ?r1 @ filter (isAbsorbed u ps1) [i + 1..<length ps1]" by simp_all
    have "filter (isAbsorbed u ps1) [i + 1..<length ps1] = filter (isAbsorbed u ps) [i + 1..<length ps]"
      unfolding len1 by (rule filter_cong) (auto simp: isAbsorbed_pointwise [OF rel1])
    with r' b upt have "r' = r @ filter (isAbsorbed u ps) [i..<length ps]" by simp
    with list_all2_sameButVelocity_trans [OF rel1 rel2] show ?thesis by simp
  qed
qed

lemma nths_cong_length:
  assumes "\<And>i. i < length xs \<Longrightarrow> (i \<in> A \<longleftrightarrow> i \<in> B)"
  shows "nths xs A = nths xs B"
  unfolding nths_def
  by (rule arg_cong [where f = "map fst"], rule filter_cong)
     (auto simp: in_set_zip assms)

lemma nths_UNIV_id: "nths xs UNIV = xs"
  by (rule nths_all) simp

lemma splice1_nths:
  assumes "a < length xs" and "\<forall>x\<in>R. x < a"
  shows "nths (splice1 xs a) (- R) = nths xs (- (R \<union> {a}))"
proof -
  have xs: "xs = take a xs @ (xs ! a # drop (Suc a) xs)"
    using assms(1) by (simp add: id_take_nth_drop)
  have la: "length (take a xs) = a" using assms(1) by simp
  have t: "nths (take a xs) (- (R \<union> {a})) = nths (take a xs) (- R)"
    by (rule nths_cong_length) (auto simp: la)
  have s1: "{j. j + a \<in> - R} = UNIV" using assms(2) by auto
  have s2: "{j. j + a \<in> - (R \<union> {a})} = {j. j \<noteq> 0}" using assms(2) by auto
  have s3: "{j. Suc j \<in> {j. j \<noteq> 0}} = UNIV" by auto
  have c: "nths (xs ! a # drop (Suc a) xs) {j. j \<noteq> 0} = drop (Suc a) xs"
    by (simp only: nths_Cons s3 nths_UNIV_id) simp
  have "nths xs (- (R \<union> {a}))
      = nths (take a xs @ (xs ! a # drop (Suc a) xs)) (- (R \<union> {a}))"
    using xs by simp
  also have "\<dots> = nths (take a xs) (- (R \<union> {a}))
        @ nths (xs ! a # drop (Suc a) xs) {j. j + a \<in> - (R \<union> {a})}"
    by (simp only: nths_append la)
  also have "\<dots> = nths (take a xs) (- R) @ drop (Suc a) xs"
    by (simp only: t s2 c)
  also have "\<dots> = nths (take a xs) (- R) @ nths (drop (Suc a) xs) {j. j + a \<in> - R}"
    by (simp only: s1 nths_UNIV_id)
  also have "\<dots> = nths (splice1 xs a) (- R)"
    by (simp only: splice1_def nths_append la)
  finally show ?thesis by simp
qed

lemma remove_descending:
  assumes "sorted r" and "distinct r" and "\<forall>x\<in>set r. x < length xs"
  shows "fold (\<lambda>i ys. splice1 ys i) (rev r) xs = nths xs (- set r)"
  using assms
proof (induction r arbitrary: xs rule: rev_induct)
  case Nil
  then show ?case by (simp add: nths_UNIV_id)
next
  case (snoc a r)
  have "\<forall>x\<in>set r. x \<le> a" using snoc.prems(1) by (simp add: sorted_append)
  moreover have "a \<notin> set r" using snoc.prems(2) by simp
  ultimately have lt: "\<forall>x\<in>set r. x < a" by (metis order_le_less)
  have a: "a < length xs" using snoc.prems(3) by simp
  have len: "length (splice1 xs a) = length xs - 1"
    using a by (simp add: splice1_def)
  have r: "sorted r" "distinct r" "\<forall>x\<in>set r. x < length (splice1 xs a)"
    using snoc.prems lt a len by (auto simp: sorted_append)
  have "fold (\<lambda>i ys. splice1 ys i) (rev (r @ [a])) xs
      = fold (\<lambda>i ys. splice1 ys i) (rev r) (splice1 xs a)" by simp
  also have "\<dots> = nths (splice1 xs a) (- set r)" by (rule snoc.IH [OF r])
  also have "\<dots> = nths xs (- (set r \<union> {a}))" by (rule splice1_nths [OF a lt])
  finally show ?case by simp
qed
lemma handlePhotonElectronCollisions_kept:
  assumes "handlePhotonElectronCollisions u rnd k = Inr (u', k', n)"
  shows "\<exists>ps'. list_all2 (sameButVelocity u) (particles u) ps'
            \<and> particles u' = nths ps' {i. \<not> isAbsorbed u (particles u) i}
            \<and> n = card {i. i < length (particles u) \<and> isAbsorbed u (particles u) i}"
proof -
  let ?ps = "particles u"
  let ?r = "filter (isAbsorbed u ?ps) [0..<length ?ps]"
  from assms obtain ps' where
    sp: "scanPhotons u rnd ?ps k [] 0 = Inr (ps', k', ?r)"
    and u': "particles u' = fold (\<lambda>i xs. splice1 xs i) (rev ?r) ps'"
    and n: "n = length ?r"
  proof -
    from assms obtain ps' r where
      a: "scanPhotons u rnd ?ps k [] 0 = Inr (ps', k', r)"
      and b: "particles u' = fold (\<lambda>i xs. splice1 xs i) (rev r) ps'" and c: "n = length r"
      by (auto simp: handlePhotonElectronCollisions_def split: sum.splits)
    from scanPhotons_result [OF a] have "r = ?r" by simp
    with a b c that show ?thesis by simp
  qed
  from scanPhotons_result [OF sp] have rel: "list_all2 (sameButVelocity u) ?ps ps'" by simp
  then have len: "length ps' = length ?ps" by (simp add: list_all2_lengthD)
  have "fold (\<lambda>i xs. splice1 xs i) (rev ?r) ps' = nths ps' (- set ?r)"
    by (rule remove_descending) (auto simp: len intro: sorted_filter [where f = "\<lambda>x. x", simplified])
  also have "\<dots> = nths ps' {i. \<not> isAbsorbed u ?ps i}"
    by (rule nths_cong_length) (auto simp: len)
  finally have 1: "particles u' = nths ps' {i. \<not> isAbsorbed u ?ps i}" using u' by simp
  have 2: "n = card {i. i < length ?ps \<and> isAbsorbed u ?ps i}"
  proof -
    have "{i. i < length [0..<length ?ps] \<and> isAbsorbed u ?ps ([0..<length ?ps] ! i)}
        = {i. i < length ?ps \<and> isAbsorbed u ?ps i}" by auto
    then show ?thesis unfolding n length_filter_conv_card by simp
  qed
  from rel 1 2 show ?thesis by blast
qed

text \<open>
  Claim C1 (absorption gating). When \<open>handlePhotonElectronCollisions\<close> stays within
  the finite numbers, the particles it leaves are the particles of the universe, up to
  the velocities of electrons, without exactly the photons that pass the collision test
  (distance below \<open>photonAbsorptionDistance\<close>, age at least
  \<open>photonMinAgeForAbsorption\<close>) with some electron of the universe, and it returns
  their number. The scan of the electrons for one photon reports an absorption exactly
  when some electron passes the test, and then changes only the first such electron.
\<close>

theorem handlePhotonElectronCollisions_removes:
  assumes "handlePhotonElectronCollisions u rnd k = Inr (u', k', n)"
  shows "(\<exists>ps'. list_all2 (sameButVelocity u) (particles u) ps'
            \<and> particles u' = nths ps' {i. \<not> isAbsorbed u (particles u) i})
       \<and> n = card {i. i < length (particles u) \<and> isAbsorbed u (particles u) i}
       \<and> (\<forall>photon ps k0 ps1 k1 b.
             scanElectrons u rnd photon ps k0 0 = Inr (ps1, k1, b) \<longrightarrow>
               (b \<longleftrightarrow> (\<exists>m < length ps. absorbs u photon (ps ! m)))
             \<and> (\<not> b \<longrightarrow> ps1 = ps)
             \<and> (b \<longrightarrow> (\<exists>m e'. m < length ps \<and> absorbs u photon (ps ! m)
                       \<and> (\<forall>i < m. \<not> absorbs u photon (ps ! i))
                       \<and> absorbPhoton u rnd k0 photon (ps ! m) = Inr (e', k1)
                       \<and> ps1 = ps[m := e'])))"
proof -
  have 3: "(b \<longleftrightarrow> (\<exists>m < length ps. absorbs u photon (ps ! m)))
             \<and> (\<not> b \<longrightarrow> ps1 = ps)
             \<and> (b \<longrightarrow> (\<exists>m e'. m < length ps \<and> absorbs u photon (ps ! m)
                       \<and> (\<forall>i < m. \<not> absorbs u photon (ps ! i))
                       \<and> absorbPhoton u rnd k0 photon (ps ! m) = Inr (e', k1)
                       \<and> ps1 = ps[m := e']))"
    if "scanElectrons u rnd photon ps k0 0 = Inr (ps1, k1, b)" for photon ps k0 ps1 k1 b
    using scanElectrons_result [OF that] by simp
  from handlePhotonElectronCollisions_kept [OF assms] 3 show ?thesis by blast
qed

lemma sqrt_4: "sqrt 4 = 2"
  by (rule real_sqrt_unique) simp_all

text \<open>
  The theorem at a photon of age 100 and energy 1.5 and an electron of velocity
  \<open>(1, 0, 0)\<close>, both at \<open>(0.5, 0.5)\<close> of the default universe: the photon is removed
  and the electron leaves with velocity \<open>(2, 0, 0)\<close>.
\<close>

theorem handlePhotonElectronCollisions_removes_witness:
  "handlePhotonElectronCollisions
      ((new_Universe 1 (1 / 1000))
         \<lparr> particles := [(new_Particle (1 / 2) (1 / 2) 1 0 0 0 False (1 / 2) 0 True (3 / 2))
                            \<lparr> age := 100 \<rparr>,
                         new_Particle (1 / 2) (1 / 2) 1 0 (- 1) 1 False (1 / 2) 0 False 0] \<rparr>)
      (\<lambda>n. 1 / 2) 0
    = Inr ((new_Universe 1 (1 / 1000))
         \<lparr> particles := [new_Particle (1 / 2) (1 / 2) 2 0 (- 1) 1 False (1 / 2) 0 False 0] \<rparr>, 0, 1)
   \<and> (1 :: nat) = card {i. i < length
          [(new_Particle (1 / 2) (1 / 2) 1 0 0 0 False (1 / 2) 0 True (3 / 2)) \<lparr> age := 100 \<rparr>,
           new_Particle (1 / 2) (1 / 2) 1 0 (- 1) 1 False (1 / 2) 0 False 0]
        \<and> isAbsorbed (new_Universe 1 (1 / 1000))
            [(new_Particle (1 / 2) (1 / 2) 1 0 0 0 False (1 / 2) 0 True (3 / 2)) \<lparr> age := 100 \<rparr>,
             new_Particle (1 / 2) (1 / 2) 1 0 (- 1) 1 False (1 / 2) 0 False 0] i}"
proof -
  let ?ph = "(new_Particle (1 / 2) (1 / 2) 1 0 0 0 False (1 / 2) 0 True (3 / 2)) \<lparr> age := 100 \<rparr>"
  let ?e = "new_Particle (1 / 2) (1 / 2) 1 0 (- 1) 1 False (1 / 2) 0 False 0"
  let ?e' = "new_Particle (1 / 2) (1 / 2) 2 0 (- 1) 1 False (1 / 2) 0 False 0"
  let ?u = "(new_Universe 1 (1 / 1000)) \<lparr> particles := [?ph, ?e] \<rparr>"
  have h: "handlePhotonElectronCollisions ?u (\<lambda>n. 1 / 2) 0
      = Inr ((new_Universe 1 (1 / 1000)) \<lparr> particles := [?e'] \<rparr>, 0, 1)"
    by (simp add: eval_defs sqrt_4)
  have a: "isAbsorbed (new_Universe 1 (1 / 1000)) = isAbsorbed ?u"
    by (intro ext) (simp add: isAbsorbed_def absorbs_def collisionDistance_def new_Universe_def)
  from handlePhotonElectronCollisions_removes [OF h]
  have "(1 :: nat) = card {i. i < length (particles ?u) \<and> isAbsorbed ?u (particles ?u) i}"
    by blast
  with h a show ?thesis by (simp add: new_Universe_def)
qed





section \<open>Properties of the photon emission\<close>

lemma sqrt_tenth_pos: "0 < sqrt (1 - 9 / 10 :: real)"
  by simp

lemma managePhotonEmission_default:
  "managePhotonEmission cfg u p speed vx vy vz (9 / 10) =
     (if enabled cfg then
        (if speed = 0 then Inl NonFinite
         else Inr (p \<lparr> vel_x := vel_x p * sqrt (1 - 9 / 10),
                       vel_y := vel_y p * sqrt (1 - 9 / 10),
                       vel_z := (if mode3D u then vel_z p * sqrt (1 - 9 / 10) else vel_z p),
                       hasEmittedPhoton := True \<rparr>,
                   Some (new_Particle (pos_x p) (pos_y p)
                           ((vx / speed) * (speed * sqrt (1 - 9 / 10)))
                           ((vy / speed) * (speed * sqrt (1 - 9 / 10)))
                           0 0 False (pos_z p)
                           (if mode3D u then (vz / speed) * (speed * sqrt (1 - 9 / 10)) else 0)
                           True (9 / 10 * (1 / 2 * electronMass u * speed * speed)))))
      else Inr (p \<lparr> vel_x := vel_x p * sqrt (1 - 9 / 10),
                    vel_y := vel_y p * sqrt (1 - 9 / 10),
                    vel_z := (if mode3D u then vel_z p * sqrt (1 - 9 / 10) else vel_z p),
                    hasEmittedPhoton := True \<rparr>, None))"
proof -
  have s: "jssqrt (1 - 9 / 10) = Inr (sqrt (1 - 9 / 10))" by (simp add: jssqrt_def)
  have n: "sqrt (1 - 9 / 10 :: real) \<noteq> 0" by simp
  show ?thesis
    unfolding managePhotonEmission_def Let_def s sum.case
    by (simp only: n if_False divide_divide_eq_right div_by_1 mult_1)
qed

lemma emissionSpeed_cong:
  assumes "vel_x a = vel_x b" and "vel_y a = vel_y b" and "mode3D u \<Longrightarrow> vel_z a = vel_z b"
  shows "emissionSpeed u a = emissionSpeed u b"
  using assms by (simp add: emissionSpeed_def Let_def)

lemma emissionSpeed_scaled:
  assumes "0 \<le> s"
  shows "emissionSpeed u (p \<lparr> vel_x := vel_x p * s, vel_y := vel_y p * s,
            vel_z := (if mode3D u then vel_z p * s else vel_z p), hasEmittedPhoton := True \<rparr>)
         = emissionSpeed u p * s"
proof -
  have "sqrt (vel_x p * s * (vel_x p * s) + vel_y p * s * (vel_y p * s) + z * s * (z * s))
      = sqrt (vel_x p * vel_x p + vel_y p * vel_y p + z * z) * s" for z
  proof -
    have "vel_x p * s * (vel_x p * s) + vel_y p * s * (vel_y p * s) + z * s * (z * s)
        = (vel_x p * vel_x p + vel_y p * vel_y p + z * z) * s\<^sup>2"
      by (simp add: power2_eq_square algebra_simps)
    then show ?thesis using assms by (simp add: real_sqrt_mult)
  qed
  from this [of "vel_z p"] this [of 0] show ?thesis
    by (simp add: emissionSpeed_def Let_def)
qed

lemma sqrt_9: "sqrt 9 = 3"
  by (rule real_sqrt_unique) simp_all

text \<open>
  Claim C2 as stated (each velocity component of the emitting electron is scaled by
  \<open>sqrt (1 - 0.9)\<close>) fails in 2D mode: an electron of the default universe with
  velocity \<open>(3, 0, 4)\<close> that passes the emission test emits one photon and keeps
  \<open>vz = 4\<close>.
\<close>

theorem managePhotonEmission_counterexample:
  "(case emitOne \<lparr> enabled = True, onePhotonPerElectron = False \<rparr> (new_Universe 1 (1 / 1000))
           (\<lambda>n. 0) 0 (new_Particle (1 / 2) (1 / 2) 3 0 (- 1) 1 False (1 / 2) 4 False 0) of
      Inl e \<Rightarrow> False
    | Inr (p', photons, k') \<Rightarrow>
        length photons = 1 \<and> hasEmittedPhoton p' \<and> vel_z p' = 4
        \<and> vel_z p' \<noteq> vel_z (new_Particle (1 / 2) (1 / 2) 3 0 (- 1) 1 False (1 / 2) 4 False 0)
                      * sqrt (1 - 9 / 10))"
  by (simp add: emitOne_def shouldEmitPhoton_def emissionSpeed_def managePhotonEmission_default
      new_Universe_def new_Particle_def sqrt_25 sqrt_9)

text \<open>
  Claim C2, amended: when emission is enabled and the electron's speed on the active
  axes (\<open>vz\<close> counted in 3D mode only) is not zero, the call that
  \<open>checkAndEmitPhotons\<close> makes returns a photon whose energy is 0.9 times
  \<open>1/2 * m_e * speed\<^sup>2\<close>; the electron's \<open>vx\<close> and \<open>vy\<close>, and in 3D mode its
  \<open>vz\<close>, are scaled by \<open>sqrt (1 - 0.9)\<close> (in 2D mode \<open>vz\<close> is left as it is), so
  that its speed on the active axes is \<open>speed * sqrt (1 - 0.9)\<close>, its flag
  \<open>hasEmittedPhoton\<close> is set and nothing else changes; and the photon is at the
  electron's position, has the electron's new velocity on the active axes (\<open>vz = 0\<close>
  in 2D mode), charge 0, mass 0 and age 0.
\<close>

theorem managePhotonEmission_emits:
  assumes "enabled cfg" and "emissionSpeed u p \<noteq> 0"
  shows "\<exists>p' photon.
      managePhotonEmission cfg u p (emissionSpeed u p) (vel_x p) (vel_y p)
        (if mode3D u then vel_z p else 0) (9 / 10) = Inr (p', Some photon)
    \<and> energy photon = 9 / 10 * (1 / 2 * electronMass u * (emissionSpeed u p)\<^sup>2)
    \<and> p' = p \<lparr> vel_x := vel_x p * sqrt (1 - 9 / 10),
                 vel_y := vel_y p * sqrt (1 - 9 / 10),
                 vel_z := (if mode3D u then vel_z p * sqrt (1 - 9 / 10) else vel_z p),
                 hasEmittedPhoton := True \<rparr>
    \<and> emissionSpeed u p' = emissionSpeed u p * sqrt (1 - 9 / 10)
    \<and> pos_x photon = pos_x p \<and> pos_y photon = pos_y p \<and> pos_z photon = pos_z p
    \<and> vel_x photon = vel_x p' \<and> vel_y photon = vel_y p'
    \<and> vel_z photon = (if mode3D u then vel_z p' else 0)
    \<and> emissionSpeed u photon = emissionSpeed u p'
    \<and> charge photon = 0 \<and> mass photon = 0 \<and> age photon = 0 \<and> isPhoton photon"
proof -
  let ?s = "sqrt (1 - 9 / 10 :: real)"
  let ?v = "emissionSpeed u p"
  let ?p' = "p \<lparr> vel_x := vel_x p * ?s, vel_y := vel_y p * ?s,
                 vel_z := (if mode3D u then vel_z p * ?s else vel_z p),
                 hasEmittedPhoton := True \<rparr>"
  let ?ph = "new_Particle (pos_x p) (pos_y p) ((vel_x p / ?v) * (?v * ?s))
               ((vel_y p / ?v) * (?v * ?s)) 0 0 False (pos_z p)
               (if mode3D u then ((if mode3D u then vel_z p else 0) / ?v) * (?v * ?s) else 0)
               True (9 / 10 * (1 / 2 * electronMass u * ?v * ?v))"
  have call: "managePhotonEmission cfg u p ?v (vel_x p) (vel_y p)
        (if mode3D u then vel_z p else 0) (9 / 10) = Inr (?p', Some ?ph)"
    using assms by (simp only: managePhotonEmission_default if_True if_False)
  have sp: "emissionSpeed u ?p' = ?v * ?s"
    by (rule emissionSpeed_scaled) simp
  have vx: "vel_x ?ph = vel_x ?p'" "vel_y ?ph = vel_y ?p'"
    "vel_z ?ph = (if mode3D u then vel_z ?p' else 0)"
    using assms(2) by (simp_all add: new_Particle_def)
  have sph: "emissionSpeed u ?ph = emissionSpeed u ?p'"
  proof (rule emissionSpeed_cong)
    show "vel_x ?ph = vel_x ?p'" "vel_y ?ph = vel_y ?p'" by (rule vx)+
    show "vel_z ?ph = vel_z ?p'" if "mode3D u" using vx(3) that by (simp only: if_True)
  qed
  have rest: "energy ?ph = 9 / 10 * (1 / 2 * electronMass u * ?v\<^sup>2)"
    "pos_x ?ph = pos_x p" "pos_y ?ph = pos_y p" "pos_z ?ph = pos_z p"
    "charge ?ph = 0" "mass ?ph = 0" "age ?ph = 0" "isPhoton ?ph"
    by (simp_all add: new_Particle_def power2_eq_square)
  show ?thesis
    by (intro exI [of _ ?p'] exI [of _ ?ph] conjI call sp vx sph rest refl)
qed

text \<open>
  The theorem at an electron with velocity \<open>(3, 4, 0)\<close> in the default universe
  switched to 3D mode: its speed is 5.
\<close>

theorem managePhotonEmission_emits_witness:
  "\<exists>p' photon.
      managePhotonEmission \<lparr> enabled = True, onePhotonPerElectron = False \<rparr>
        ((new_Universe 1 (1 / 1000)) \<lparr> mode3D := True \<rparr>)
        (new_Particle (1 / 2) (1 / 2) 3 4 (- 1) 1 False (1 / 2) 0 False 0) 5 3 4 0 (9 / 10)
        = Inr (p', Some photon)
    \<and> energy photon = 9 / 10 * (1 / 2 * 1 * 5\<^sup>2)
    \<and> vel_x p' = 3 * sqrt (1 - 9 / 10) \<and> vel_x photon = vel_x p'"
proof -
  let ?c = "\<lparr> enabled = True, onePhotonPerElectron = False \<rparr>"
  let ?u = "(new_Universe 1 (1 / 1000)) \<lparr> mode3D := True \<rparr>"
  let ?p = "new_Particle (1 / 2) (1 / 2) 3 4 (- 1) 1 False (1 / 2) 0 False 0"
  have v: "emissionSpeed ?u ?p = 5"
    by (simp add: emissionSpeed_def new_Universe_def new_Particle_def sqrt_25)
  have h: "enabled ?c" "emissionSpeed ?u ?p \<noteq> 0" by (simp_all add: v)
  from managePhotonEmission_emits [OF h] obtain p' photon where
    "managePhotonEmission ?c ?u ?p (emissionSpeed ?u ?p) (vel_x ?p) (vel_y ?p)
        (if mode3D ?u then vel_z ?p else 0) (9 / 10) = Inr (p', Some photon)"
    "energy photon = 9 / 10 * (1 / 2 * electronMass ?u * (emissionSpeed ?u ?p)\<^sup>2)"
    "p' = ?p \<lparr> vel_x := vel_x ?p * sqrt (1 - 9 / 10),
                 vel_y := vel_y ?p * sqrt (1 - 9 / 10),
                 vel_z := (if mode3D ?u then vel_z ?p * sqrt (1 - 9 / 10) else vel_z ?p),
                 hasEmittedPhoton := True \<rparr>"
    "vel_x photon = vel_x p'"
    by blast
  then have "managePhotonEmission ?c ?u ?p 5 3 4 0 (9 / 10) = Inr (p', Some photon)
    \<and> energy photon = 9 / 10 * (1 / 2 * 1 * 5\<^sup>2)
    \<and> vel_x p' = 3 * sqrt (1 - 9 / 10) \<and> vel_x photon = vel_x p'"
    unfolding v by (simp add: new_Universe_def new_Particle_def)
  then show ?thesis by blast
qed

lemma emitOne_skip:
  "\<not> isElectron p \<or> (onePhotonPerElectron cfg \<and> hasEmittedPhoton p) \<Longrightarrow>
     emitOne cfg u rnd j p = Inr (p, [], j)"
  by (auto simp: emitOne_def isElectron_def)

lemma emitOne_call:
  assumes "isElectron p" and "\<not> (onePhotonPerElectron cfg \<and> hasEmittedPhoton p)"
  shows "emitOne cfg u rnd j p =
     (if fst (shouldEmitPhoton u rnd j p) then
        (case managePhotonEmission cfg u p (emissionSpeed u p) (vel_x p) (vel_y p)
                (if mode3D u then vel_z p else 0) (9 / 10) of
           Inl e \<Rightarrow> Inl e
         | Inr (p', photon) \<Rightarrow>
             Inr (p', (case photon of None \<Rightarrow> [] | Some ph \<Rightarrow> [ph]), snd (shouldEmitPhoton u rnd j p)))
      else Inr (p, [], snd (shouldEmitPhoton u rnd j p)))"
  using assms
  by (cases "shouldEmitPhoton u rnd j p")
     (auto simp: emitOne_def isElectron_def Let_def split: sum.splits)

lemma emitOne_disabled:
  assumes "\<not> enabled cfg" and "emitOne (cfg \<lparr> enabled := True \<rparr>) u rnd j p = Inr (p', photons, j')"
  shows "emitOne cfg u rnd j p = Inr (p', [], j')"
proof (cases "isElectron p \<and> \<not> (onePhotonPerElectron cfg \<and> hasEmittedPhoton p)")
  case False
  then have "emitOne cfg u rnd j p = Inr (p, [], j)"
    "emitOne (cfg \<lparr> enabled := True \<rparr>) u rnd j p = Inr (p, [], j)"
    by (simp_all add: emitOne_skip)
  with assms(2) show ?thesis by simp
next
  case True
  then have c: "isElectron p" "\<not> (onePhotonPerElectron cfg \<and> hasEmittedPhoton p)"
    "\<not> (onePhotonPerElectron (cfg \<lparr> enabled := True \<rparr>) \<and> hasEmittedPhoton p)" by simp_all
  show ?thesis
    using assms
    unfolding emitOne_call [OF c(1,2)] emitOne_call [OF c(1,3)] managePhotonEmission_default
    by (auto split: if_splits)
qed

lemma emitLoop_disabled:
  assumes "\<not> enabled cfg"
    and "emitLoop (cfg \<lparr> enabled := True \<rparr>) u rnd j ps = Inr (ps', photons, j')"
  shows "emitLoop cfg u rnd j ps = Inr (ps', [], j')"
  using assms(2)
proof (induction ps arbitrary: j ps' photons j')
  case Nil
  then show ?case by simp
next
  case (Cons p ps)
  from Cons.prems obtain p1 ph1 j1 ps1 ph2 where
    a: "emitOne (cfg \<lparr> enabled := True \<rparr>) u rnd j p = Inr (p1, ph1, j1)"
    and b: "emitLoop (cfg \<lparr> enabled := True \<rparr>) u rnd j1 ps = Inr (ps1, ph2, j')"
    and c: "ps' = p1 # ps1"
    by (auto split: sum.splits)
  from emitOne_disabled [OF assms(1) a] Cons.IH [OF b] c show ?case by simp
qed

lemma emitLoop_length:
  "emitLoop cfg u rnd j ps = Inr (ps', photons, j') \<Longrightarrow> length ps' = length ps"
  by (induction ps arbitrary: j ps' photons j') (auto split: sum.splits)

lemma emitLoop_no_photons:
  assumes "\<not> enabled cfg"
  shows "emitLoop cfg u rnd j ps = Inr (ps', photons, j') \<Longrightarrow> photons = []"
proof (induction ps arbitrary: j ps' photons j')
  case Nil
  then show ?case by simp
next
  case (Cons p ps)
  from Cons.prems obtain p1 ph1 j1 ps1 ph2 where
    a: "emitOne cfg u rnd j p = Inr (p1, ph1, j1)"
    and b: "emitLoop cfg u rnd j1 ps = Inr (ps1, ph2, j')"
    and c: "photons = ph1 @ ph2"
    by (auto split: sum.splits)
  have "ph1 = []"
  proof (cases "isElectron p \<and> \<not> (onePhotonPerElectron cfg \<and> hasEmittedPhoton p)")
    case False
    then show ?thesis using a by (auto simp: emitOne_skip)
  next
    case True
    then show ?thesis
      using a assms by (auto simp: emitOne_call managePhotonEmission_default split: if_splits)
  qed
  with Cons.IH [OF b] c show ?case by simp
qed

lemma updateAll_length_eq:
  "length fs = length ps \<Longrightarrow> updateAll u ps fs = Inr qs \<Longrightarrow> length qs = length ps"
  by (induction u ps fs arbitrary: qs rule: updateAll.induct) (auto split: sum.splits)

lemma step_length:
  assumes "step cfg u rnd k = Inr (u', k')"
  shows "\<exists>u1 k1 n u2 k2. handlePhotonElectronCollisions u rnd (k + 1) = Inr (u1, k1, n)
           \<and> checkAndEmitPhotons cfg u1 rnd k1 = Inr (u2, k2)
           \<and> length (particles u') = length (particles u2)"
proof -
  from assms obtain u1 k1 n u2 k2 forces1 qs where
    h: "handlePhotonElectronCollisions u rnd (k + 1) = Inr (u1, k1, n)"
    and c: "checkAndEmitPhotons cfg u1 rnd k1 = Inr (u2, k2)"
    and po: "pairOuter u2 (map resetForceTracking (particles u2))
               (map (\<lambda>p. zeroForce) (particles u2)) 0 = Inr forces1"
    and up: "updateAll u2 (map resetForceTracking (particles u2))
               (if groundGravityEnabled u2
                then addGroundGravity u2 (map resetForceTracking (particles u2))
                       (if gravityEnabled u2
                        then addGravity u2 (map resetForceTracking (particles u2)) forces1
                        else forces1)
                else (if gravityEnabled u2
                      then addGravity u2 (map resetForceTracking (particles u2)) forces1
                      else forces1)) = Inr qs"
    and u': "u' = u2 \<lparr> particles := qs \<rparr>"
    by (auto simp: step_def Let_def split: sum.splits)
  from pairOuter_total [OF po] have "length forces1 = length (particles u2)" by simp
  then have "length (if groundGravityEnabled u2
                then addGroundGravity u2 (map resetForceTracking (particles u2))
                       (if gravityEnabled u2
                        then addGravity u2 (map resetForceTracking (particles u2)) forces1
                        else forces1)
                else (if gravityEnabled u2
                      then addGravity u2 (map resetForceTracking (particles u2)) forces1
                      else forces1)) = length (map resetForceTracking (particles u2))"
    by (simp add: addGravity_def addGroundGravity_def)
  from updateAll_length_eq [OF this up] u' have "length (particles u') = length (particles u2)"
    by simp
  with h c show ?thesis by blast
qed

lemma length_nths_le: "length (nths xs I) \<le> length xs"
proof -
  have "card {i. i < length xs \<and> i \<in> I} \<le> card {i. i < length xs}"
    by (rule card_mono) auto
  then show ?thesis by (simp add: length_nths)
qed

lemma handlePhotonElectronCollisions_length:
  assumes "handlePhotonElectronCollisions u rnd k = Inr (u1, k1, n)"
  shows "length (particles u1) \<le> length (particles u)"
proof -
  from handlePhotonElectronCollisions_kept [OF assms] obtain ps' where
    "list_all2 (sameButVelocity u) (particles u) ps'"
    "particles u1 = nths ps' {i. \<not> isAbsorbed u (particles u) i}" by blast
  then show ?thesis using length_nths_le [of ps'] by (simp add: list_all2_lengthD)
qed

text \<open>
  Claim C3 as stated (with emission disabled an electron that passes the emission test
  has each velocity component scaled by \<open>sqrt (1 - 0.9)\<close>) fails in 2D mode: an
  electron of the default universe with velocity \<open>(3, 0, 4)\<close> is flagged, has
  \<open>vx\<close> scaled and keeps \<open>vz = 4\<close>.
\<close>

theorem emission_disabled_counterexample:
  "(case checkAndEmitPhotons \<lparr> enabled = False, onePhotonPerElectron = False \<rparr>
           ((new_Universe 1 (1 / 1000))
              \<lparr> particles := [new_Particle (1 / 2) (1 / 2) 3 0 (- 1) 1 False (1 / 2) 4 False 0] \<rparr>)
           (\<lambda>n. 0) 0 of
      Inl e \<Rightarrow> False
    | Inr (u', k') \<Rightarrow>
        (case particles u' of
           [p'] \<Rightarrow> hasEmittedPhoton p' \<and> vel_x p' = 3 * sqrt (1 - 9 / 10) \<and> vel_z p' = 4
                    \<and> vel_z p' \<noteq> 4 * sqrt (1 - 9 / 10)
         | _ \<Rightarrow> False))"
  by (simp add: checkAndEmitPhotons_def emitOne_def shouldEmitPhoton_def emissionSpeed_def
      managePhotonEmission_default new_Universe_def new_Particle_def sqrt_25 sqrt_9)

text \<open>
  Claim C3, amended: when emission is disabled, a step that stays within the finite
  numbers adds no particle to the collection, whatever the speeds (it ends with as
  many particles as the absorption phase leaves); an electron that
  passes the emission test still has \<open>vx\<close> and \<open>vy\<close>, and in 3D mode \<open>vz\<close>,
  scaled by \<open>sqrt (1 - 0.9)\<close> (in 2D mode \<open>vz\<close> is left as it is) and its flag
  \<open>hasEmittedPhoton\<close> set, and pushes no photon; and the particles and the draw
  counter that \<open>checkAndEmitPhotons\<close> leaves are those that the loop leaves when
  emission is enabled.
\<close>

theorem emission_disabled:
  assumes "\<not> enabled cfg"
  shows "(\<forall>u' k'. step cfg u rnd k = Inr (u', k') \<longrightarrow>
              (\<exists>u1 k1 n. handlePhotonElectronCollisions u rnd (k + 1) = Inr (u1, k1, n)
                 \<and> length (particles u') = length (particles u1))
              \<and> length (particles u') \<le> length (particles u))
       \<and> (\<forall>p j. isElectron p \<and> \<not> (onePhotonPerElectron cfg \<and> hasEmittedPhoton p)
                  \<and> fst (shouldEmitPhoton u rnd j p) \<longrightarrow>
              emitOne cfg u rnd j p =
                Inr (p \<lparr> vel_x := vel_x p * sqrt (1 - 9 / 10),
                         vel_y := vel_y p * sqrt (1 - 9 / 10),
                         vel_z := (if mode3D u then vel_z p * sqrt (1 - 9 / 10) else vel_z p),
                         hasEmittedPhoton := True \<rparr>, [], snd (shouldEmitPhoton u rnd j p)))
       \<and> (\<forall>ps photons k'.
              emitLoop (cfg \<lparr> enabled := True \<rparr>) u rnd k (particles u) = Inr (ps, photons, k') \<longrightarrow>
              checkAndEmitPhotons cfg u rnd k = Inr (u \<lparr> particles := ps \<rparr>, k'))"
proof (intro conjI allI impI)
  fix u' k'
  assume "step cfg u rnd k = Inr (u', k')"
  from step_length [OF this] obtain u1 k1 n u2 k2 where
    h: "handlePhotonElectronCollisions u rnd (k + 1) = Inr (u1, k1, n)"
    and c: "checkAndEmitPhotons cfg u1 rnd k1 = Inr (u2, k2)"
    and len: "length (particles u') = length (particles u2)" by blast
  from c obtain ps photons where
    e: "emitLoop cfg u1 rnd k1 (particles u1) = Inr (ps, photons, k2)"
    and u2: "particles u2 = ps @ photons"
    by (auto simp: checkAndEmitPhotons_def split: sum.splits)
  from emitLoop_no_photons [OF assms e] emitLoop_length [OF e] u2 len
  have eq: "length (particles u') = length (particles u1)" by simp
  with h show "\<exists>u1 k1 n. handlePhotonElectronCollisions u rnd (k + 1) = Inr (u1, k1, n)
                 \<and> length (particles u') = length (particles u1)" by blast
  from eq handlePhotonElectronCollisions_length [OF h]
  show "length (particles u') \<le> length (particles u)" by simp
next
  fix p j
  assume a: "isElectron p \<and> \<not> (onePhotonPerElectron cfg \<and> hasEmittedPhoton p)
                  \<and> fst (shouldEmitPhoton u rnd j p)"
  then have "isElectron p" "\<not> (onePhotonPerElectron cfg \<and> hasEmittedPhoton p)" by simp_all
  from emitOne_call [OF this] a assms
  show "emitOne cfg u rnd j p =
                Inr (p \<lparr> vel_x := vel_x p * sqrt (1 - 9 / 10),
                         vel_y := vel_y p * sqrt (1 - 9 / 10),
                         vel_z := (if mode3D u then vel_z p * sqrt (1 - 9 / 10) else vel_z p),
                         hasEmittedPhoton := True \<rparr>, [], snd (shouldEmitPhoton u rnd j p))"
    by (simp add: managePhotonEmission_default)
next
  fix ps photons k'
  assume "emitLoop (cfg \<lparr> enabled := True \<rparr>) u rnd k (particles u) = Inr (ps, photons, k')"
  from emitLoop_disabled [OF assms this]
  show "checkAndEmitPhotons cfg u rnd k = Inr (u \<lparr> particles := ps \<rparr>, k')"
    by (simp add: checkAndEmitPhotons_def)
qed

text \<open>
  The theorem at an electron with velocity \<open>(3, 4, 0)\<close> in the default universe
  switched to 3D mode.
\<close>

theorem emission_disabled_witness:
  "emitOne \<lparr> enabled = False, onePhotonPerElectron = False \<rparr>
      ((new_Universe 1 (1 / 1000)) \<lparr> mode3D := True \<rparr>) (\<lambda>n. 0) 0
      (new_Particle (1 / 2) (1 / 2) 3 4 (- 1) 1 False (1 / 2) 0 False 0)
    = Inr ((new_Particle (1 / 2) (1 / 2) 3 4 (- 1) 1 False (1 / 2) 0 False 0)
             \<lparr> vel_x := 3 * sqrt (1 - 9 / 10), vel_y := 4 * sqrt (1 - 9 / 10),
               vel_z := 0, hasEmittedPhoton := True \<rparr>, [], 1)"
proof -
  let ?c = "\<lparr> enabled = False, onePhotonPerElectron = False \<rparr>"
  let ?u = "(new_Universe 1 (1 / 1000)) \<lparr> mode3D := True \<rparr>"
  let ?p = "new_Particle (1 / 2) (1 / 2) 3 4 (- 1) 1 False (1 / 2) 0 False 0"
  have sh: "shouldEmitPhoton ?u (\<lambda>n. 0) 0 ?p = (True, 1)"
    by (simp add: shouldEmitPhoton_def new_Universe_def new_Particle_def sqrt_25)
  have h: "isElectron ?p \<and> \<not> (onePhotonPerElectron ?c \<and> hasEmittedPhoton ?p)
      \<and> fst (shouldEmitPhoton ?u (\<lambda>n. 0) 0 ?p)"
    by (simp add: sh) (simp add: isElectron_def new_Particle_def)
  have c: "\<not> enabled ?c" by simp
  from emission_disabled [OF c, of ?u "\<lambda>n. 0" 0] h
  have "emitOne ?c ?u (\<lambda>n. 0) 0 ?p =
      Inr (?p \<lparr> vel_x := vel_x ?p * sqrt (1 - 9 / 10), vel_y := vel_y ?p * sqrt (1 - 9 / 10),
                vel_z := (if mode3D ?u then vel_z ?p * sqrt (1 - 9 / 10) else vel_z ?p),
                hasEmittedPhoton := True \<rparr>, [], snd (shouldEmitPhoton ?u (\<lambda>n. 0) 0 ?p))"
    by blast
  then show ?thesis unfolding sh by (simp add: new_Universe_def new_Particle_def)
qed

lemma shouldEmitPhoton_speed:
  "fst (shouldEmitPhoton u rnd j p) \<Longrightarrow>
     photonEmissionSpeedThreshold u
       \<le> sqrt (vel_x p * vel_x p + vel_y p * vel_y p + vel_z p * vel_z p)"
  by (auto simp: shouldEmitPhoton_def Let_def split: if_splits)

lemma emissionSpeed_full:
  "mode3D u \<or> vel_z p = 0 \<Longrightarrow>
     emissionSpeed u p = sqrt (vel_x p * vel_x p + vel_y p * vel_y p + vel_z p * vel_z p)"
  by (auto simp: emissionSpeed_def Let_def)

lemma emitOne_finite:
  assumes "isElectron p \<longrightarrow> mode3D u \<or> vel_z p = 0" and "0 < photonEmissionSpeedThreshold u"
  shows "\<exists>r. emitOne cfg u rnd j p = Inr r"
proof (cases "isElectron p \<and> \<not> (onePhotonPerElectron cfg \<and> hasEmittedPhoton p)")
  case False
  then show ?thesis by (auto simp: emitOne_skip)
next
  case True
  then have c: "isElectron p" "\<not> (onePhotonPerElectron cfg \<and> hasEmittedPhoton p)" by simp_all
  show ?thesis
  proof (cases "fst (shouldEmitPhoton u rnd j p)")
    case False
    then show ?thesis by (auto simp: emitOne_call [OF c])
  next
    case True
    from shouldEmitPhoton_speed [OF True] emissionSpeed_full [of u p] assms c(1)
    have "emissionSpeed u p \<noteq> 0" by auto
    with True show ?thesis
      by (auto simp: emitOne_call [OF c] managePhotonEmission_default)
  qed
qed

lemma emitLoop_finite:
  assumes "\<forall>p\<in>set ps. isElectron p \<longrightarrow> mode3D u \<or> vel_z p = 0"
    and "0 < photonEmissionSpeedThreshold u"
  shows "\<exists>r. emitLoop cfg u rnd j ps = Inr r"
  using assms(1)
proof (induction ps arbitrary: j)
  case Nil
  then show ?case by simp
next
  case (Cons p ps)
  from emitOne_finite [OF _ assms(2), of p cfg rnd j] Cons.prems obtain p1 ph1 j1 where
    a: "emitOne cfg u rnd j p = Inr (p1, ph1, j1)" by (metis prod_cases3 list.set_intros(1))
  from Cons.IH [of j1] Cons.prems obtain ps1 ph2 j2 where
    b: "emitLoop cfg u rnd j1 ps = Inr (ps1, ph2, j2)" by (metis prod_cases3 list.set_intros(2))
  from a b show ?case by simp
qed

lemma handlePhotonElectronCollisions_origin:
  assumes "handlePhotonElectronCollisions u rnd k = Inr (u1, k1, n)" and "q \<in> set (particles u1)"
  shows "\<exists>p\<in>set (particles u). sameButVelocity u p q"
proof -
  from handlePhotonElectronCollisions_kept [OF assms(1)] obtain ps' where
    rel: "list_all2 (sameButVelocity u) (particles u) ps'"
    and u1: "particles u1 = nths ps' {i. \<not> isAbsorbed u (particles u) i}" by blast
  from assms(2) u1 have "q \<in> set ps'" by (auto dest: in_set_nthsD)
  then show ?thesis using rel by (metis in_set_conv_nth list_all2_conv_all_nth)
qed

text \<open>
  Claim C10 (the speed passed to \<open>managePhotonEmission\<close> is positive). Let every
  electron of the universe have \<open>vz = 0\<close> unless 3D mode is on, and let the threshold
  be \<open>1e-3\<close>. After the absorption phase of a step, for every electron \<open>p\<close> of the
  collection and every state of the random draws for which \<open>shouldEmitPhoton\<close> is
  true (the condition under which the emission loop calls \<open>managePhotonEmission\<close>, see
  \<open>emitOne_call\<close>), the speed that the loop passes on is at least \<open>1e-3\<close>, hence
  positive, and the call yields finite numbers; and so does the whole emission phase
  of the step.
\<close>

theorem step_emission_speed_positive:
  assumes "\<forall>p\<in>set (particles u). isElectron p \<longrightarrow> mode3D u \<or> vel_z p = 0"
    and "photonEmissionSpeedThreshold u = 1 / 1000"
    and "handlePhotonElectronCollisions u rnd (k + 1) = Inr (u1, k1, n)"
    and "p \<in> set (particles u1)" and "isElectron p"
    and "fst (shouldEmitPhoton u1 rnd j p)"
  shows "1 / 1000 \<le> emissionSpeed u1 p \<and> 0 < emissionSpeed u1 p
       \<and> (\<exists>r. managePhotonEmission cfg u1 p (emissionSpeed u1 p) (vel_x p) (vel_y p)
                 (if mode3D u1 then vel_z p else 0) (9 / 10) = Inr r)
       \<and> (\<exists>r. checkAndEmitPhotons cfg u1 rnd k1 = Inr r)"
proof -
  note fr = handlePhotonElectronCollisions_frame [OF assms(3)]
  have pre: "isElectron q \<longrightarrow> mode3D u1 \<or> vel_z q = 0" if "q \<in> set (particles u1)" for q
  proof
    assume e: "isElectron q"
    from handlePhotonElectronCollisions_origin [OF assms(3) that] obtain p0 where
      p0: "p0 \<in> set (particles u)" "sameButVelocity u p0 q" by blast
    from sameButVelocity_fields [OF p0(2)] e have "isElectron p0"
      by (simp add: isElectron_def)
    with assms(1) p0(1) have "mode3D u \<or> vel_z p0 = 0" by simp
    with sameButVelocity_fields(9) [OF p0(2)] fr(2) show "mode3D u1 \<or> vel_z q = 0" by auto
  qed
  have thr: "photonEmissionSpeedThreshold u1 = 1 / 1000" using fr(5) assms(2) by simp
  from pre [OF assms(4)] assms(5) have "mode3D u1 \<or> vel_z p = 0" by simp
  from emissionSpeed_full [OF this] shouldEmitPhoton_speed [OF assms(6)] thr
  have v: "1 / 1000 \<le> emissionSpeed u1 p" by simp
  then have pos: "0 < emissionSpeed u1 p" by simp
  then have "\<exists>r. managePhotonEmission cfg u1 p (emissionSpeed u1 p) (vel_x p) (vel_y p)
                 (if mode3D u1 then vel_z p else 0) (9 / 10) = Inr r"
    by (simp add: managePhotonEmission_default)
  moreover have "\<exists>r. checkAndEmitPhotons cfg u1 rnd k1 = Inr r"
  proof -
    have "\<forall>q\<in>set (particles u1). isElectron q \<longrightarrow> mode3D u1 \<or> vel_z q = 0"
      using pre by blast
    from emitLoop_finite [OF this, of cfg rnd k1] thr obtain ps photons k2 where
      "emitLoop cfg u1 rnd k1 (particles u1) = Inr (ps, photons, k2)"
      by (metis prod_cases3 zero_less_divide_1_iff zero_less_numeral)
    then show ?thesis by (simp add: checkAndEmitPhotons_def)
  qed
  ultimately show ?thesis using v pos by blast
qed

text \<open>
  The theorem at an electron with velocity \<open>(1, 0, 0)\<close> alone in the default 2D
  universe, with all random draws 0: the speed passed on is 1.
\<close>

theorem step_emission_speed_positive_witness:
  "(1 / 1000 :: real) \<le> emissionSpeed
       ((new_Universe 1 (1 / 1000))
          \<lparr> particles := [new_Particle (1 / 2) (1 / 2) 1 0 (- 1) 1 False (1 / 2) 0 False 0] \<rparr>)
       (new_Particle (1 / 2) (1 / 2) 1 0 (- 1) 1 False (1 / 2) 0 False 0)
   \<and> emissionSpeed
       ((new_Universe 1 (1 / 1000))
          \<lparr> particles := [new_Particle (1 / 2) (1 / 2) 1 0 (- 1) 1 False (1 / 2) 0 False 0] \<rparr>)
       (new_Particle (1 / 2) (1 / 2) 1 0 (- 1) 1 False (1 / 2) 0 False 0) = 1
   \<and> (\<exists>r. checkAndEmitPhotons \<lparr> enabled = True, onePhotonPerElectron = True \<rparr>
       ((new_Universe 1 (1 / 1000))
          \<lparr> particles := [new_Particle (1 / 2) (1 / 2) 1 0 (- 1) 1 False (1 / 2) 0 False 0] \<rparr>)
       (\<lambda>n. 0) 1 = Inr r)"
proof -
  let ?p = "new_Particle (1 / 2) (1 / 2) 1 0 (- 1) 1 False (1 / 2) 0 False 0"
  let ?u = "(new_Universe 1 (1 / 1000)) \<lparr> particles := [?p] \<rparr>"
  let ?c = "\<lparr> enabled = True, onePhotonPerElectron = True \<rparr>"
  have h: "handlePhotonElectronCollisions ?u (\<lambda>n. 0) (0 + 1) = Inr (?u, 1, 0)"
    by (simp add: handlePhotonElectronCollisions_def scanPhotons.simps new_Universe_def
        new_Particle_def)
  have pre: "\<forall>p\<in>set (particles ?u). isElectron p \<longrightarrow> mode3D ?u \<or> vel_z p = 0"
    by (simp add: new_Universe_def new_Particle_def)
  have thr: "photonEmissionSpeedThreshold ?u = 1 / 1000" by (simp add: new_Universe_def)
  have p: "?p \<in> set (particles ?u)" "isElectron ?p"
    by (simp_all add: isElectron_def new_Particle_def)
  have sh: "fst (shouldEmitPhoton ?u (\<lambda>n. 0) 1 ?p)"
    by (simp add: shouldEmitPhoton_def new_Universe_def new_Particle_def)
  have v: "emissionSpeed ?u ?p = 1"
    by (simp add: emissionSpeed_def new_Universe_def new_Particle_def)
  from step_emission_speed_positive [OF pre thr h p sh, of ?c] v show ?thesis by blast
qed

text \<open>
  The precondition cannot be dropped: in the default 2D universe an electron with
  velocity \<open>(0, 0, 1)\<close> passes \<open>shouldEmitPhoton\<close>, whose speed is 1, while the speed
  passed on is 0, and with emission enabled the photon's velocity is \<open>0 / 0\<close>.
\<close>

lemma emitOne_vz_in_2D:
  "emissionSpeed (new_Universe 1 (1 / 1000))
       (new_Particle (1 / 2) (1 / 2) 0 0 (- 1) 1 False (1 / 2) 1 False 0) = 0
   \<and> emitOne \<lparr> enabled = True, onePhotonPerElectron = True \<rparr> (new_Universe 1 (1 / 1000))
       (\<lambda>n. 0) 0 (new_Particle (1 / 2) (1 / 2) 0 0 (- 1) 1 False (1 / 2) 1 False 0)
     = Inl NonFinite"
  by (simp add: emitOne_def shouldEmitPhoton_def emissionSpeed_def managePhotonEmission_default
      new_Universe_def new_Particle_def)

section \<open>Steps that stay within the finite numbers\<close>
























end
